theory Spec2Isabelle
  imports Main
begin

section \<open>Entity adapter tables\<close>

text \<open>
  The slices keep each entity collection in the normalized table of
  \<^verbatim>\<open>createEntityAdapter\<close>: an \<^verbatim>\<open>ids\<close> array and an \<^verbatim>\<open>entities\<close> dictionary keyed by
  the entity's own id (\<^verbatim>\<open>selectId\<close>, by default the field \<^verbatim>\<open>id\<close>). The table is modelled as
  the list of its entities in \<^verbatim>\<open>ids\<close> order. \<open>entityAt\<close> gives the entry the table itself
  holds under a key; the value of the expression \<^verbatim>\<open>entities[k]\<close>, which also sees the
  properties every plain object inherits, is \<open>propertyAt\<close> below. JavaScript numbers are
  modelled as \<open>int\<close> (the game's time costs and points are whole numbers).
\<close>

fun entityAt :: "('a \<Rightarrow> string) \<Rightarrow> 'a list \<Rightarrow> string \<Rightarrow> 'a option" where
  "entityAt selectId [] k = None"
| "entityAt selectId (e # es) k = (if selectId e = k then Some e else entityAt selectId es k)"

text \<open>
  \<^verbatim>\<open>adapter.updateOne(table, {id, changes})\<close> on the entries of the table: \<^verbatim>\<open>changes\<close> is
  merged into the entry under \<^verbatim>\<open>id\<close>, and a table with no such entry keeps its entries. No
  reducer of the slices changes an entity's id, so the entity keeps its key.
\<close>

fun updateOne :: "('a \<Rightarrow> string) \<Rightarrow> string \<Rightarrow> ('a \<Rightarrow> 'a) \<Rightarrow> 'a list \<Rightarrow> 'a list" where
  "updateOne selectId k changes [] = []"
| "updateOne selectId k changes (e # es) =
     (if selectId e = k then changes e # es else e # updateOne selectId k changes es)"

text \<open>\<^verbatim>\<open>adapter.addOne\<close>: an entity whose key is already in the table is skipped.\<close>

definition addOne :: "('a \<Rightarrow> string) \<Rightarrow> 'a \<Rightarrow> 'a list \<Rightarrow> 'a list" where
  "addOne selectId e es = (if entityAt selectId es (selectId e) = None then es @ [e] else es)"

text \<open>\<^verbatim>\<open>adapter.setAll(adapter.getInitialState(), xs)\<close>: the empty table, then every
  element of \<^verbatim>\<open>xs\<close> added in order.\<close>

definition setAll :: "('a \<Rightarrow> string) \<Rightarrow> 'a list \<Rightarrow> 'a list" where
  "setAll selectId xs = foldl (\<lambda>acc e. addOne selectId e acc) [] xs"

text \<open>
  \<^verbatim>\<open>Object.values(table.entities)\<close> lists the values in the property order of the
  dictionary: the keys that are array indices (canonical decimal numerals below
  \<open>2^32 - 1\<close>) in ascending numeric order, then the other keys in insertion order.
\<close>

definition digitValue :: "char \<Rightarrow> nat" where
  "digitValue c = of_char c - 48"

definition isDigit :: "char \<Rightarrow> bool" where
  "isDigit c = (c \<in> set ''0123456789'')"

definition numericValue :: "string \<Rightarrow> nat" where
  "numericValue k = foldl (\<lambda>n c. 10 * n + digitValue c) 0 k"

definition isArrayIndex :: "string \<Rightarrow> bool" where
  "isArrayIndex k =
     (k \<noteq> [] \<and> list_all isDigit k \<and> (k = ''0'' \<or> hd k \<noteq> CHR ''0'')
      \<and> numericValue k < 4294967295)"

definition ownKeys :: "string list \<Rightarrow> string list" where
  "ownKeys ks = sort_key numericValue (filter isArrayIndex ks) @ filter (\<lambda>k. \<not> isArrayIndex k) ks"

definition firstValue :: "('a \<Rightarrow> string) \<Rightarrow> 'a list \<Rightarrow> 'a option" where
  "firstValue selectId es =
     (case ownKeys (map selectId es) of [] \<Rightarrow> None | k # _ \<Rightarrow> entityAt selectId es k)"

text \<open>
  The \<^verbatim>\<open>entities\<close> dictionary is a plain object, so the expression \<^verbatim>\<open>entities[k]\<close> has three
  kinds of value. For a key of the table it is the entry. For another key that is the
  name of a property of \<^verbatim>\<open>Object.prototype\<close> it is that inherited property: a function (for
  \<^verbatim>\<open>__proto__\<close> the prototype object), which is truthy and has none of an entity's fields.
  For every other key it is \<^verbatim>\<open>undefined\<close>.
\<close>

definition inheritedNames :: "string list" where
  "inheritedNames =
     [''constructor'', ''__defineGetter__'', ''__defineSetter__'', ''hasOwnProperty'',
      ''__lookupGetter__'', ''__lookupSetter__'', ''isPrototypeOf'', ''propertyIsEnumerable'',
      ''toString'', ''valueOf'', ''__proto__'', ''toLocaleString'']"

datatype 'a property = NoProperty | OwnEntry 'a | InheritedValue

definition propertyAt :: "('a \<Rightarrow> string) \<Rightarrow> 'a list \<Rightarrow> string \<Rightarrow> 'a property" where
  "propertyAt selectId es k =
     (case entityAt selectId es k of
        Some e \<Rightarrow> OwnEntry e
      | None \<Rightarrow> if k \<in> set inheritedNames then InheritedValue else NoProperty)"

section \<open>Story slice: data model\<close>

datatype CardType = Card_character | Card_object

datatype UnlockType = UT_location | UT_sublocation | UT_evidence | UT_character | UT_event

record DataComponent =
  dc_type :: string
  dc_props :: "(string \<times> string) list option"

record Unlock =
  u_type :: UnlockType
  u_ref :: string
  u_time :: int

record StoryObject =
  o_id :: string
  o_name :: string
  o_imagePrompt :: string
  o_description :: string
  o_unidentifiedDescription :: string
  o_timestamp :: string
  o_isEvidence :: bool
  o_assignedToSuspectIds :: "string list"
  o_locationFoundId :: string
  o_category :: string
  o_tags :: "string list"
  o_authorCharacterId :: "string option"
  o_ownerCharacterId :: "string option"
  o_timeToAdd :: "int option"
  o_hasBeenUnlocked :: bool
  o_rarity :: string
  o_components :: "DataComponent list"
  o_unlocks :: "Unlock list"

record Connections =
  relatedPeople :: "string list"
  knownLocations :: "string list"
  associatedObjects :: "string list"

record Character =
  c_id :: string
  c_name :: string
  c_age :: string
  c_occupation :: string
  c_imagePrompt :: string
  c_description :: string
  c_role :: string
  c_isSuspect :: bool
  c_connections :: Connections
  c_testimonyIds :: "string list"
  c_components :: "DataComponent list"

record StoryEvent =
  e_id :: string
  e_name :: string
  e_imagePrompt :: string
  e_description :: string
  e_timestamp :: string
  e_locationId :: string
  e_timeToAdd :: int
  e_hasBeenUnlocked :: bool
  e_rarity :: string
  e_tags :: "string list"
  e_components :: "DataComponent list"

record Sublocation =
  sl_id :: string
  sl_name :: string
  sl_description :: string
  sl_locationId :: string
  sl_isVisible :: bool
  sl_timeToAdd :: int
  sl_hasBeenUnlocked :: bool

text \<open>A location; its hotspots and map coordinates play no part in the reducers and are
  left out.\<close>

record Location =
  l_id :: string
  l_name :: string
  l_imagePrompt :: string
  l_description :: string
  l_lastEventTimestamp :: string
  l_lastEventDescription :: string
  l_sceneSummary :: string
  l_isInternal :: bool

record Evidence =
  ev_id :: string
  ev_cardId :: string
  ev_cardType :: CardType
  ev_name :: string
  ev_imagePrompt :: string
  ev_timestampCollected :: string
  ev_locationId :: string

record Testimony =
  t_id :: string
  t_title :: string
  t_content :: string
  t_sourceCharacterId :: string

record StoryInfo =
  mapImagePrompt :: string
  mapTitle :: string
  crimeSceneId :: string

datatype ColorTreatment = monochrome | selectiveColor | mapTreatment

record ImageGenerationRequest =
  r_cardId :: string
  r_prompt :: string
  r_colorTreatment :: ColorTreatment

text \<open>
  The state of the story slice. The fields \<^verbatim>\<open>evidenceGroups\<close>, \<^verbatim>\<open>bounties\<close>,
  \<^verbatim>\<open>canonicalTimeline\<close>, \<^verbatim>\<open>evidenceStacks\<close> and \<^verbatim>\<open>dynamicHotspotCoords\<close>, which none of the
  reducers below reads and only the load reducer writes, live in the record's extension:
  every operation is defined on the record scheme, so what it leaves alone includes them.
\<close>

record StoryState =
  title :: string
  storyInfo :: StoryInfo
  characters :: "Character list"
  objects :: "StoryObject list"
  events :: "StoryEvent list"
  locations :: "Location list"
  sublocations :: "Sublocation list"
  evidence :: "Evidence list"
  testimonies :: "Testimony list"
  imageUrls :: "string \<rightharpoonup> string"
  imageLoading :: "string \<rightharpoonup> bool"
  imageErrors :: "string \<rightharpoonup> bool"
  imageGenerationQueue :: "ImageGenerationRequest list"
  isProcessingQueue :: bool
  hasDiscoveredPaint :: bool
  timeSpent :: int
  milestoneThreshold :: int
  accusationThreshold :: int
  totalDiscoverableEvidence :: int

section \<open>Story slice: reducers\<close>

text \<open>
  The reducers of this slice read \<^verbatim>\<open>state.objects.entities[id]\<close> (and the like) and test the
  value for truthiness. They are modelled with \<open>entityAt\<close>: this is the source for every
  id that is a key of the table or names no property at all. For an id of
  \<open>inheritedNames\<close> that is no key, the source reads an inherited function. Then
  \<^verbatim>\<open>removeFromTimeline\<close> and \<^verbatim>\<open>toggleSuspect\<close> change nothing, as here (the value has no
  \<^verbatim>\<open>isEvidence\<close> and no \<^verbatim>\<open>role\<close>), and \<^verbatim>\<open>assignEvidenceToSuspect\<close> throws on the missing
  \<^verbatim>\<open>assignedToSuspectIds\<close>, so that the store keeps its state, as here. \<^verbatim>\<open>addToTimeline\<close>
  and \<^verbatim>\<open>unlockEntity\<close> go on with that value. They charge the time they charge here
  (\<^verbatim>\<open>addToTimeline\<close> the cost \<^verbatim>\<open>undefined ?? 0\<close>, \<^verbatim>\<open>unlockEntity\<close> its \<^verbatim>\<open>timeToAdd\<close>), but
  \<^verbatim>\<open>addToTimeline\<close> also appends, when the store has a location, an Evidence entry whose
  \<^verbatim>\<open>cardId\<close> is \<^verbatim>\<open>undefined\<close>, and does so on every call, since its two checks compare the
  entries' \<^verbatim>\<open>cardId\<close> with the payload; and both reducers call the adapter's \<^verbatim>\<open>updateOne\<close>
  with a key that is no entry. The records below hold no Evidence entry without a
  \<^verbatim>\<open>cardId\<close>, so for such an id the definitions of these two reducers do not give the
  evidence list of the source, nor what the adapter keeps beside the entries of the table.
\<close>

text \<open>\<^verbatim>\<open>state.evidence.some(e => e.cardId === id)\<close>\<close>

definition onTimeline :: "'z StoryState_scheme \<Rightarrow> string \<Rightarrow> bool" where
  "onTimeline state k = list_ex (\<lambda>e. ev_cardId e = k) (evidence state)"

text \<open>\<^verbatim>\<open>state.locations.entities[item.locationFoundId] || Object.values(state.locations.entities)[0]\<close>\<close>

definition evidenceLocationFor :: "'z StoryState_scheme \<Rightarrow> StoryObject \<Rightarrow> Location option" where
  "evidenceLocationFor state item =
     (case entityAt l_id (locations state) (o_locationFoundId item) of
        Some l \<Rightarrow> Some l
      | None \<Rightarrow> firstValue l_id (locations state))"

definition evidenceEntry :: "string \<Rightarrow> StoryObject \<Rightarrow> Location \<Rightarrow> Evidence" where
  "evidenceEntry k item location =
     \<lparr> ev_id = ''ev-'' @ k, ev_cardId = o_id item, ev_cardType = Card_object,
       ev_name = o_name item, ev_imagePrompt = o_imagePrompt item,
       ev_timestampCollected = o_timestamp item, ev_locationId = l_id location \<rparr>"

definition addToTimeline :: "'z StoryState_scheme \<Rightarrow> string \<Rightarrow> 'z StoryState_scheme" where
  "addToTimeline state k =
     (case entityAt o_id (objects state) k of
        None \<Rightarrow> state
      | Some item \<Rightarrow>
          if onTimeline state k then state
          else
            let state1 =
              (if \<not> o_hasBeenUnlocked item then
                 let cost = (case o_timeToAdd item of None \<Rightarrow> 0 | Some t \<Rightarrow> t) in
                 state\<lparr> timeSpent := timeSpent state + cost,
                        objects := updateOne o_id k
                          (\<lambda>x. x\<lparr> o_isEvidence := True, o_hasBeenUnlocked := True \<rparr>) (objects state) \<rparr>
               else
                 state\<lparr> objects := updateOne o_id k (\<lambda>x. x\<lparr> o_isEvidence := True \<rparr>) (objects state) \<rparr>)
            in
              if \<not> onTimeline state1 k then
                (case evidenceLocationFor state1 item of
                   None \<Rightarrow> state1
                 | Some location \<Rightarrow>
                     state1\<lparr> evidence := evidence state1 @ [evidenceEntry k item location] \<rparr>)
              else state1)"

definition removeFromTimeline :: "'z StoryState_scheme \<Rightarrow> string \<Rightarrow> 'z StoryState_scheme" where
  "removeFromTimeline state k =
     (case entityAt o_id (objects state) k of
        None \<Rightarrow> state
      | Some item \<Rightarrow>
          if o_isEvidence item then
            state\<lparr> objects := updateOne o_id k
                      (\<lambda>x. x\<lparr> o_isEvidence := False, o_assignedToSuspectIds := [] \<rparr>) (objects state),
                   evidence := filter (\<lambda>e. ev_cardId e \<noteq> k) (evidence state) \<rparr>
          else state)"

definition assignEvidenceToSuspect ::
  "'z StoryState_scheme \<Rightarrow> string \<Rightarrow> string \<Rightarrow> 'z StoryState_scheme" where
  "assignEvidenceToSuspect state objectId suspectId =
     (case entityAt o_id (objects state) objectId of
        None \<Rightarrow> state
      | Some object \<Rightarrow>
          let assignedIds =
            (if suspectId \<in> set (o_assignedToSuspectIds object)
             then filter (\<lambda>i. i \<noteq> suspectId) (o_assignedToSuspectIds object)
             else o_assignedToSuspectIds object @ [suspectId])
          in state\<lparr> objects := updateOne o_id objectId
                      (\<lambda>x. x\<lparr> o_assignedToSuspectIds := assignedIds \<rparr>) (objects state) \<rparr>)"

definition toggleSuspect :: "'z StoryState_scheme \<Rightarrow> string \<Rightarrow> bool \<Rightarrow> 'z StoryState_scheme" where
  "toggleSuspect state k isSuspect =
     (case entityAt c_id (characters state) k of
        None \<Rightarrow> state
      | Some character \<Rightarrow>
          if c_role character = ''suspect''
          then state\<lparr> characters := updateOne c_id k (\<lambda>x. x\<lparr> c_isSuspect := isSuspect \<rparr>) (characters state) \<rparr>
          else state)"

definition addDynamicObject :: "'z StoryState_scheme \<Rightarrow> StoryObject \<Rightarrow> 'z StoryState_scheme" where
  "addDynamicObject state object = state\<lparr> objects := addOne o_id object (objects state) \<rparr>"

definition addTimeSpent :: "'z StoryState_scheme \<Rightarrow> int \<Rightarrow> 'z StoryState_scheme" where
  "addTimeSpent state amount = state\<lparr> timeSpent := timeSpent state + amount \<rparr>"

definition subtractTimeSpent :: "'z StoryState_scheme \<Rightarrow> int \<Rightarrow> 'z StoryState_scheme" where
  "subtractTimeSpent state amount = state\<lparr> timeSpent := max 0 (timeSpent state - amount) \<rparr>"

definition unlockEntity ::
  "'z StoryState_scheme \<Rightarrow> UnlockType \<Rightarrow> string \<Rightarrow> int \<Rightarrow> 'z StoryState_scheme" where
  "unlockEntity state ty ref timeToAdd =
     (let state1 = state\<lparr> timeSpent := timeSpent state + timeToAdd \<rparr> in
      case ty of
        UT_location \<Rightarrow> state1
      | UT_sublocation \<Rightarrow>
          (case entityAt sl_id (sublocations state1) ref of
             None \<Rightarrow> state1
           | Some sublocation \<Rightarrow>
               if \<not> sl_hasBeenUnlocked sublocation
               then state1\<lparr> sublocations := updateOne sl_id ref
                      (\<lambda>x. x\<lparr> sl_isVisible := True, sl_hasBeenUnlocked := True \<rparr>) (sublocations state1) \<rparr>
               else state1)
      | UT_evidence \<Rightarrow>
          (case entityAt o_id (objects state1) ref of
             None \<Rightarrow> state1
           | Some object \<Rightarrow>
               if \<not> o_hasBeenUnlocked object
               then state1\<lparr> objects := updateOne o_id ref
                      (\<lambda>x. x\<lparr> o_hasBeenUnlocked := True \<rparr>) (objects state1) \<rparr>
               else state1)
      | UT_character \<Rightarrow> state1
      | UT_event \<Rightarrow>
          (case entityAt e_id (events state1) ref of
             None \<Rightarrow> state1
           | Some event \<Rightarrow>
               if \<not> e_hasBeenUnlocked event
               then state1\<lparr> events := updateOne e_id ref
                      (\<lambda>x. x\<lparr> e_hasBeenUnlocked := True \<rparr>) (events state1) \<rparr>
               else state1))"

section \<open>Story slice: loading a cartridge\<close>

text \<open>The transformed story data the loader service hands to the thunk (the fields the
  thunk and the reducer below use).\<close>

record StoryData =
  sd_title :: string
  sd_storyInfo :: StoryInfo
  sd_characters :: "Character list"
  sd_objects :: "StoryObject list"
  sd_events :: "StoryEvent list"
  sd_locations :: "Location list"
  sd_sublocations :: "Sublocation list"
  sd_testimonies :: "Testimony list"

record LoadPayload =
  p_storyData :: StoryData
  p_initialEvidence :: "Evidence list"
  p_totalDiscoverableEvidence :: int

text \<open>JavaScript truthiness of an optional string: absent and empty are falsy.\<close>

fun truthy :: "string option \<Rightarrow> bool" where
  "truthy None = False"
| "truthy (Some v) = (v \<noteq> [])"

text \<open>The body of the thunk \<^verbatim>\<open>loadStoryCartridge\<close> after the service has returned.\<close>

definition initialEvidenceOf :: "StoryData \<Rightarrow> Evidence list" where
  "initialEvidenceOf storyData =
     (let victim = find (\<lambda>c. c_role c = ''victim'') (sd_characters storyData);
          crimeScene =
            (if crimeSceneId (sd_storyInfo storyData) \<noteq> []
             then find (\<lambda>l. l_id l = crimeSceneId (sd_storyInfo storyData)) (sd_locations storyData)
             else None);
          evidenceLocation =
            (case crimeScene of
               Some l \<Rightarrow> Some l
             | None \<Rightarrow> (case sd_locations storyData of [] \<Rightarrow> None | l # _ \<Rightarrow> Some l))
      in case (victim, evidenceLocation) of
           (Some v, Some l) \<Rightarrow>
             [\<lparr> ev_id = ''ev-initial-crime'', ev_cardId = c_id v, ev_cardType = Card_character,
                ev_name = ''The Death of '' @ c_name v, ev_imagePrompt = c_imagePrompt v,
                ev_timestampCollected = l_lastEventTimestamp l, ev_locationId = l_id l \<rparr>]
         | _ \<Rightarrow> [])"

definition loadStoryCartridge :: "StoryData \<Rightarrow> LoadPayload" where
  "loadStoryCartridge storyData =
     \<lparr> p_storyData = storyData,
       p_initialEvidence = initialEvidenceOf storyData,
       p_totalDiscoverableEvidence =
         int (length (filter (\<lambda>obj. \<not> truthy (o_authorCharacterId obj)) (sd_objects storyData))) + 1 \<rparr>"

text \<open>The reducer for \<^verbatim>\<open>loadStoryCartridge.fulfilled\<close>. (It also replaces the four
  collections kept in the record's extension.)\<close>

definition loadStoryCartridge_fulfilled ::
  "'z StoryState_scheme \<Rightarrow> LoadPayload \<Rightarrow> 'z StoryState_scheme" where
  "loadStoryCartridge_fulfilled state payload =
     (let storyData = p_storyData payload in
      state\<lparr> title := sd_title storyData,
             storyInfo := sd_storyInfo storyData,
             characters := setAll c_id (sd_characters storyData),
             objects := setAll o_id (sd_objects storyData),
             events := setAll e_id (sd_events storyData),
             locations := setAll l_id (sd_locations storyData),
             sublocations := setAll sl_id (sd_sublocations storyData),
             evidence := p_initialEvidence payload,
             testimonies := sd_testimonies storyData,
             totalDiscoverableEvidence := p_totalDiscoverableEvidence payload \<rparr>)"

text \<open>The constants of \<^verbatim>\<open>GAME_MECHANICS\<close> the slice reads (the config module is a
  parameter).\<close>

record GameMechanics =
  INITIAL_PLAYER_TIME_SPENT :: int
  MILESTONE_THRESHOLD :: int
  ACCUSATION_THRESHOLD :: int

definition createEmptyInitialState :: "GameMechanics \<Rightarrow> StoryState" where
  "createEmptyInitialState gm =
     \<lparr> title = '''',
       storyInfo = \<lparr> mapImagePrompt = '''', mapTitle = '''', crimeSceneId = '''' \<rparr>,
       characters = [], objects = [], events = [], locations = [], sublocations = [],
       evidence = [], testimonies = [],
       imageUrls = Map.empty, imageLoading = Map.empty, imageErrors = Map.empty,
       imageGenerationQueue = [], isProcessingQueue = False, hasDiscoveredPaint = False,
       timeSpent = INITIAL_PLAYER_TIME_SPENT gm,
       milestoneThreshold = MILESTONE_THRESHOLD gm,
       accusationThreshold = ACCUSATION_THRESHOLD gm,
       totalDiscoverableEvidence = 0 \<rparr>"

section \<open>Story slice: the image generation queue\<close>

definition queueImageGeneration ::
  "'z StoryState_scheme \<Rightarrow> ImageGenerationRequest \<Rightarrow> 'z StoryState_scheme" where
  "queueImageGeneration state request =
     (let cardId = r_cardId request;
          isInQueue = list_ex (\<lambda>req. r_cardId req = cardId) (imageGenerationQueue state);
          isAlreadyLoaded = truthy (imageUrls state cardId);
          isLoading = (imageLoading state cardId = Some True)
      in if \<not> isInQueue \<and> \<not> isAlreadyLoaded \<and> \<not> isLoading
         then state\<lparr> imageGenerationQueue := imageGenerationQueue state @ [request] \<rparr>
         else state)"

definition dequeueImageRequests :: "'z StoryState_scheme \<Rightarrow> nat \<Rightarrow> 'z StoryState_scheme" where
  "dequeueImageRequests state n =
     state\<lparr> imageGenerationQueue := drop n (imageGenerationQueue state) \<rparr>"

definition setIsProcessingQueue :: "'z StoryState_scheme \<Rightarrow> bool \<Rightarrow> 'z StoryState_scheme" where
  "setIsProcessingQueue state b = state\<lparr> isProcessingQueue := b \<rparr>"

definition setImageLoading :: "'z StoryState_scheme \<Rightarrow> string \<Rightarrow> bool \<Rightarrow> 'z StoryState_scheme" where
  "setImageLoading state cardId isLoading =
     state\<lparr> imageLoading := (imageLoading state)(cardId \<mapsto> isLoading) \<rparr>"

definition setImageUrl :: "'z StoryState_scheme \<Rightarrow> string \<Rightarrow> string \<Rightarrow> 'z StoryState_scheme" where
  "setImageUrl state cardId imageUrl =
     state\<lparr> imageUrls := (imageUrls state)(cardId \<mapsto> imageUrl) \<rparr>"

definition setImageError :: "'z StoryState_scheme \<Rightarrow> string \<Rightarrow> bool \<Rightarrow> 'z StoryState_scheme" where
  "setImageError state cardId hasError =
     state\<lparr> imageErrors := (imageErrors state)(cardId \<mapsto> hasError) \<rparr>"

text \<open>
  What the external collaborators do for one request: the generation service returns an
  image that is stored and given an object URL (\<open>Generated url\<close>), or it returns nothing
  (\<open>NoResult\<close>), or the service, the blob conversion or the cache throws (\<open>Thrown\<close>).
\<close>

datatype Outcome = Generated string | NoResult | Thrown

text \<open>
  One promise of a batch runs in two uninterrupted segments. The first, inside
  \<^verbatim>\<open>batch.map\<close>, marks the card as loading and stops at the first \<^verbatim>\<open>await\<close>. The second
  runs when the collaborators have settled: the \<^verbatim>\<open>try\<close> branch publishes the URL or marks
  the error, the \<^verbatim>\<open>catch\<close> branch marks the error, and \<^verbatim>\<open>finally\<close> clears the loading flag.
\<close>

definition requestStart ::
  "ImageGenerationRequest \<Rightarrow> 'z StoryState_scheme \<Rightarrow> 'z StoryState_scheme" where
  "requestStart request state = setImageLoading state (r_cardId request) True"

definition requestSettle ::
  "(ImageGenerationRequest \<Rightarrow> Outcome) \<Rightarrow> ImageGenerationRequest
     \<Rightarrow> 'z StoryState_scheme \<Rightarrow> 'z StoryState_scheme" where
  "requestSettle generateImageAPI request state =
     (let state1 =
        (case generateImageAPI request of
           Generated objectURL \<Rightarrow> setImageUrl state (r_cardId request) objectURL
         | NoResult \<Rightarrow> setImageError state (r_cardId request) True
         | Thrown \<Rightarrow> setImageError state (r_cardId request) True)
      in setImageLoading state1 (r_cardId request) False)"

text \<open>
  One batch: every promise is started in queue order, then the promises settle in the
  order \<open>settleOrder batch\<close> chosen by the event loop, and \<^verbatim>\<open>Promise.allSettled\<close> waits for
  all of them.
\<close>

definition processBatch ::
  "(ImageGenerationRequest \<Rightarrow> Outcome) \<Rightarrow> (ImageGenerationRequest list \<Rightarrow> ImageGenerationRequest list)
     \<Rightarrow> ImageGenerationRequest list \<Rightarrow> 'z StoryState_scheme \<Rightarrow> 'z StoryState_scheme" where
  "processBatch generateImageAPI settleOrder batch state =
     fold (requestSettle generateImageAPI) (settleOrder batch) (fold requestStart batch state)"

lemma processBatch_queue:
  "imageGenerationQueue (processBatch g ord b s) = imageGenerationQueue s"
proof -
  have start: "imageGenerationQueue (fold requestStart xs t) = imageGenerationQueue t"
    for xs and t :: "'a StoryState_scheme"
    by (induction xs arbitrary: t) (simp_all add: requestStart_def setImageLoading_def)
  have settle: "imageGenerationQueue (fold (requestSettle g) xs t) = imageGenerationQueue t"
    for xs and t :: "'a StoryState_scheme"
    by (induction xs arbitrary: t)
       (simp_all add: requestSettle_def setImageLoading_def setImageUrl_def setImageError_def
          split: Outcome.splits)
  show ?thesis by (simp add: processBatch_def start settle)
qed

text \<open>
  The \<^verbatim>\<open>while\<close> loop of the thunk, run with no other action dispatched in between. With
  a limit of 0 the batch is empty, nothing is dequeued and the loop never ends: the
  value \<open>None\<close>.
\<close>

function processLoop ::
  "nat \<Rightarrow> (ImageGenerationRequest \<Rightarrow> Outcome) \<Rightarrow> (ImageGenerationRequest list \<Rightarrow> ImageGenerationRequest list)
     \<Rightarrow> 'z StoryState_scheme \<Rightarrow> 'z StoryState_scheme option" where
  "processLoop CONCURRENT_REQUEST_LIMIT generateImageAPI settleOrder state =
     (if imageGenerationQueue state = [] then Some state
      else if CONCURRENT_REQUEST_LIMIT = 0 then None
      else
        let batch = take CONCURRENT_REQUEST_LIMIT (imageGenerationQueue state) in
        processLoop CONCURRENT_REQUEST_LIMIT generateImageAPI settleOrder
          (processBatch generateImageAPI settleOrder batch
             (dequeueImageRequests state (length batch))))"
  by pat_completeness auto

termination
  by (relation "measure (\<lambda>(n, g, ord, s). length (imageGenerationQueue s))")
     (auto simp: processBatch_queue dequeueImageRequests_def)

definition processImageGenerationQueue ::
  "nat \<Rightarrow> (ImageGenerationRequest \<Rightarrow> Outcome) \<Rightarrow> (ImageGenerationRequest list \<Rightarrow> ImageGenerationRequest list)
     \<Rightarrow> 'z StoryState_scheme \<Rightarrow> 'z StoryState_scheme option" where
  "processImageGenerationQueue CONCURRENT_REQUEST_LIMIT generateImageAPI settleOrder state =
     (if isProcessingQueue state \<or> imageGenerationQueue state = [] then Some state
      else
        map_option (\<lambda>s. setIsProcessingQueue s False)
          (processLoop CONCURRENT_REQUEST_LIMIT generateImageAPI settleOrder
             (setIsProcessingQueue state True)))"

section \<open>Case file slice\<close>

datatype CaseFileViewMode = VM_workspace | VM_timeline

record Clue =
  cl_id :: string
  cl_eventKey :: string
  cl_text :: string
  cl_type :: string
  cl_category :: string
  cl_points :: int
  cl_bonusPoints :: "int option"

record EvidenceSlot =
  slotId :: string
  correctEventKey :: "string option"
  placedClueId :: "string option"

record TimelineAnchor =
  a_id :: string
  a_title :: string
  a_timeLabel :: string
  primarySlot :: EvidenceSlot
  supportingSlots :: "EvidenceSlot list"

record CaseFileState =
  viewMode :: CaseFileViewMode
  activeTab :: string
  selectedClueId :: "string option"
  clues :: "Clue list"
  slots :: "EvidenceSlot list"
  anchors :: "TimelineAnchor list"
  score :: int
  lastIncorrectSlotId :: "string option"

text \<open>\<^verbatim>\<open>createEmptyInitialState\<close> of the case file module.\<close>

definition caseFile_createEmptyInitialState :: CaseFileState where
  "caseFile_createEmptyInitialState =
     \<lparr> viewMode = VM_workspace, activeTab = ''motive'', selectedClueId = None,
       clues = [], slots = [], anchors = [], score = 0, lastIncorrectSlotId = None \<rparr>"

text \<open>The reducer for \<^verbatim>\<open>loadCaseFileFromCartridge.fulfilled\<close>.\<close>

definition loadCaseFileFromCartridge_fulfilled ::
  "CaseFileState \<Rightarrow> Clue list \<Rightarrow> TimelineAnchor list \<Rightarrow> CaseFileState" where
  "loadCaseFileFromCartridge_fulfilled state caseFileClues caseFileAnchors =
     (let allSlots = concat (map (\<lambda>anchor. primarySlot anchor # supportingSlots anchor) caseFileAnchors)
      in state\<lparr> clues := setAll cl_id caseFileClues,
                slots := setAll slotId allSlots,
                anchors := caseFileAnchors \<rparr>)"

definition setViewMode :: "CaseFileState \<Rightarrow> CaseFileViewMode \<Rightarrow> CaseFileState" where
  "setViewMode state m = state\<lparr> viewMode := m \<rparr>"

definition setActiveTab :: "CaseFileState \<Rightarrow> string \<Rightarrow> CaseFileState" where
  "setActiveTab state tab = state\<lparr> activeTab := tab \<rparr>"

definition setSelectedClueId :: "CaseFileState \<Rightarrow> string option \<Rightarrow> CaseFileState" where
  "setSelectedClueId state c = state\<lparr> selectedClueId := c \<rparr>"

definition clearLastIncorrectSlot :: "CaseFileState \<Rightarrow> CaseFileState" where
  "clearLastIncorrectSlot state = state\<lparr> lastIncorrectSlotId := None \<rparr>"

text \<open>\<^verbatim>\<open>state.anchors.find(a => a.id === state.activeTab)\<close>\<close>

definition activeAnchor :: "CaseFileState \<Rightarrow> TimelineAnchor option" where
  "activeAnchor state = find (\<lambda>a. a_id a = activeTab state) (anchors state)"

text \<open>\<^verbatim>\<open>!!state.slots.entities[anchor.primarySlot.slotId]?.placedClueId\<close>\<close>

definition primarySlotFilled :: "CaseFileState \<Rightarrow> TimelineAnchor \<Rightarrow> bool" where
  "primarySlotFilled state anchor =
     (case propertyAt slotId (slots state) (slotId (primarySlot anchor)) of
        OwnEntry p \<Rightarrow> truthy (placedClueId p)
      | InheritedValue \<Rightarrow> False
      | NoProperty \<Rightarrow> False)"

text \<open>
  The reducer \<^verbatim>\<open>placeClueInSlot\<close>. The guard \<^verbatim>\<open>if (!clue || !slot || !anchor) return\<close> lets an
  inherited value through; such a value has no \<^verbatim>\<open>type\<close> and no \<^verbatim>\<open>correctEventKey\<close>.
  \<^verbatim>\<open>createEntityAdapter\<close> is not part of the sources: what its \<^verbatim>\<open>updateOne\<close> leaves in the
  slot table when the key names an inherited property instead of an entry is the
  parameter \<open>updateOnInherited\<close> (applied to the key, the clue id and the table).
\<close>

definition placeClueInSlot ::
  "(string \<Rightarrow> string \<Rightarrow> EvidenceSlot list \<Rightarrow> EvidenceSlot list)
     \<Rightarrow> CaseFileState \<Rightarrow> string \<Rightarrow> CaseFileState" where
  "placeClueInSlot updateOnInherited state sid =
     (case selectedClueId state of
        None \<Rightarrow> state
      | Some clueId \<Rightarrow>
          if clueId = [] then state
          else
            let clue = propertyAt cl_id (clues state) clueId;
                slot = propertyAt slotId (slots state) sid
            in
              (case activeAnchor state of
                 None \<Rightarrow> state
               | Some anchor \<Rightarrow>
                   if clue = NoProperty \<or> slot = NoProperty then state
                   else
                     (case clue of
                        OwnEntry c \<Rightarrow>
                          let isCorrect =
                            (if cl_type c = ''PRIMARY'' then
                               (case slot of
                                  OwnEntry s \<Rightarrow> correctEventKey s = Some (cl_eventKey c)
                                | InheritedValue \<Rightarrow> False
                                | NoProperty \<Rightarrow> False)
                             else if cl_type c = ''SUPPORTING'' then
                               (let isSupportingSlot =
                                      list_ex (\<lambda>s. slotId s = sid) (supportingSlots anchor)
                                in primarySlotFilled state anchor \<and> isSupportingSlot
                                   \<and> cl_category c = a_id anchor)
                             else False)
                          in
                            if isCorrect then
                              state\<lparr> slots :=
                                       (case slot of
                                          OwnEntry s \<Rightarrow>
                                            updateOne slotId sid
                                              (\<lambda>x. x\<lparr> placedClueId := Some clueId \<rparr>) (slots state)
                                        | InheritedValue \<Rightarrow> updateOnInherited sid clueId (slots state)
                                        | NoProperty \<Rightarrow> slots state),
                                     score := score state
                                       + (cl_points c
                                          + (case cl_bonusPoints c of None \<Rightarrow> 0 | Some b \<Rightarrow> b)),
                                     selectedClueId := None,
                                     lastIncorrectSlotId := None \<rparr>
                            else state\<lparr> lastIncorrectSlotId := Some sid \<rparr>
                      | InheritedValue \<Rightarrow> state\<lparr> lastIncorrectSlotId := Some sid \<rparr>
                      | NoProperty \<Rightarrow> state)))"

text \<open>
  \<^verbatim>\<open>resetInvestigation(state) { return createInitialState(); }\<close> The module declares
  \<^verbatim>\<open>createEmptyInitialState\<close> and imports \<^verbatim>\<open>createSlice\<close>, \<^verbatim>\<open>createEntityAdapter\<close>,
  \<^verbatim>\<open>createSelector\<close>, \<^verbatim>\<open>createAsyncThunk\<close>, \<^verbatim>\<open>loadCaseFileData\<close> and \<^verbatim>\<open>showModal\<close>; it has
  no binding named \<^verbatim>\<open>createInitialState\<close>, so evaluating the call raises a
  \<^verbatim>\<open>ReferenceError\<close> and the reducer returns no state.
\<close>

datatype js_error = ReferenceError string

definition resetInvestigation :: "CaseFileState \<Rightarrow> js_error + CaseFileState" where
  "resetInvestigation state = Inl (ReferenceError ''createInitialState'')"

text \<open>The store keeps its state when a reducer throws.\<close>

definition dispatch_resetInvestigation :: "CaseFileState \<Rightarrow> CaseFileState" where
  "dispatch_resetInvestigation state =
     (case resetInvestigation state of Inl err \<Rightarrow> state | Inr state' \<Rightarrow> state')"

section \<open>Cartridge loader: characters\<close>

text \<open>A raw character of the cartridge; \<^verbatim>\<open>statement\<close>, \<^verbatim>\<open>components\<close> and
  \<^verbatim>\<open>connections\<close> may be absent.\<close>

record RawCharacter =
  rc_id :: string
  rc_name :: string
  rc_age :: string
  rc_role :: string
  rc_occupation :: string
  rc_imagePrompt :: string
  rc_bio :: string
  rc_isSuspect :: bool
  rc_statement :: "string option"
  rc_components :: "DataComponent list option"
  rc_connections :: "Connections option"

text \<open>A raw object of the cartridge, with the fields \<^verbatim>\<open>transformCharacterData\<close> reads
  or writes.\<close>

record RawObject =
  ro_id :: string
  ro_name :: string
  ro_unidentifiedDescription :: string
  ro_ownerCharacterId :: "string option"
  ro_authorCharacterId :: "string option"
  ro_category :: "string option"
  ro_locationFoundId :: string
  ro_timestamp :: string
  ro_imagePrompt :: string
  ro_description :: string
  ro_components :: "DataComponent list option"
  ro_rarity :: "string option"
  ro_timeToAdd :: "int option"

text \<open>\<^verbatim>\<open>toLowerCase\<close>, on the ASCII letters.\<close>

definition toLowerChar :: "char \<Rightarrow> char" where
  "toLowerChar ch =
     (let n = (of_char ch :: nat) in if 65 \<le> n \<and> n \<le> 90 then char_of (n + 32) else ch)"

definition toLowerCase :: "string \<Rightarrow> string" where
  "toLowerCase s = map toLowerChar s"

text \<open>A property of a JSON object interpolated into a template string.\<close>

definition interpolate :: "(string \<times> string) list \<Rightarrow> string \<Rightarrow> string" where
  "interpolate props k = (case map_of props k of None \<Rightarrow> ''undefined'' | Some v \<Rightarrow> v)"

definition mugshotPrompt :: "RawCharacter \<Rightarrow> (string \<times> string) list \<Rightarrow> string" where
  "mugshotPrompt c physicalChars =
     ''Mugshot of '' @ rc_name c
     @ ''. Front and side profile view against a height chart. A plaque in front displays their details: Height: ''
     @ interpolate physicalChars ''height'' @ '', Weight: '' @ interpolate physicalChars ''weight''
     @ '', Eyes: '' @ interpolate physicalChars ''eyes'' @ '', Hair: '' @ interpolate physicalChars ''hair''
     @ ''. '' @ (case map_of physicalChars ''features'' of None \<Rightarrow> '''' | Some v \<Rightarrow> v)
     @ '' The style is high-contrast, gritty, Sin City noir. Photorealistic, hyper-detailed, sharp focus.''"

definition mugshotObject :: "string \<Rightarrow> RawCharacter \<Rightarrow> (string \<times> string) list \<Rightarrow> RawObject" where
  "mugshotObject now c physicalChars =
     \<lparr> ro_id = ''obj_mugshot_'' @ rc_id c,
       ro_name = ''Booking Photo: '' @ rc_name c,
       ro_unidentifiedDescription = ''An official police booking photo.'',
       ro_ownerCharacterId = Some (rc_id c),
       ro_authorCharacterId = None,
       ro_category = Some ''police_file'',
       ro_locationFoundId = ''loc_police_station'',
       ro_timestamp = now,
       ro_imagePrompt = mugshotPrompt c physicalChars,
       ro_description = ''Official booking photo for '' @ rc_name c @ ''.'',
       ro_components = Some [],
       ro_rarity = Some ''irrelevant'',
       ro_timeToAdd = Some 0 \<rparr>"

definition standardComponentTypes :: "string list" where
  "standardComponentTypes =
     [''socialMedia'', ''phoneLog'', ''cctv'', ''records'', ''file'', ''purchaseInfo'',
      ''interaction'', ''dialogue'']"

definition hasComponentData :: "RawObject list \<Rightarrow> RawCharacter \<Rightarrow> string \<Rightarrow> bool" where
  "hasComponentData allRawObjects c ty =
     (list_ex (\<lambda>obj. ro_ownerCharacterId obj = Some (rc_id c) \<and> ro_category obj = Some ty) allRawObjects
      \<or> list_ex (\<lambda>obj. ro_authorCharacterId obj = Some (rc_id c) \<and> ty = ''socialMedia'') allRawObjects)"

definition ensureComponent ::
  "RawObject list \<Rightarrow> RawCharacter \<Rightarrow> DataComponent list \<Rightarrow> string \<Rightarrow> DataComponent list" where
  "ensureComponent allRawObjects c components ty =
     (if hasComponentData allRawObjects c ty \<and> \<not> list_ex (\<lambda>existing. dc_type existing = ty) components
      then components @ [\<lparr> dc_type = ty, dc_props = Some [] \<rparr>]
      else components)"

text \<open>
  The callback of \<^verbatim>\<open>rawCharacters.map\<close> for one character. The arrays \<^verbatim>\<open>allRawObjects\<close>
  and \<^verbatim>\<open>testimonies\<close> it pushes onto are passed in and returned; \<open>now\<close> is the clock
  reading \<^verbatim>\<open>new Date().toISOString()\<close>.
\<close>

definition transformCharacter ::
  "string \<Rightarrow> RawCharacter \<Rightarrow> RawObject list \<Rightarrow> Testimony list
     \<Rightarrow> Character \<times> RawObject list \<times> Testimony list" where
  "transformCharacter now c allRawObjects testimonies0 =
     (let (testimonyIds, testimonies1) =
            (case rc_statement c of
               None \<Rightarrow> ([], testimonies0)
             | Some statement \<Rightarrow>
                 if statement = [] then ([], testimonies0)
                 else
                   let testimonyId = ''testimony-'' @ rc_id c in
                   ([testimonyId],
                    testimonies0 @ [\<lparr> t_id = testimonyId,
                                     t_title = ''Statement from '' @ rc_name c,
                                     t_content = statement,
                                     t_sourceCharacterId = rc_id c \<rparr>]));
          components = (case rc_components c of None \<Rightarrow> [] | Some cs \<Rightarrow> cs);
          physicalChars =
            (case find (\<lambda>component. dc_type component = ''physicalCharacteristics'') components of
               None \<Rightarrow> None
             | Some component \<Rightarrow> dc_props component);
          allRawObjects1 =
            (case physicalChars of
               None \<Rightarrow> allRawObjects
             | Some pc \<Rightarrow>
                 if rc_role c = ''suspect'' then allRawObjects @ [mugshotObject now c pc]
                 else allRawObjects);
          components1 = foldl (ensureComponent allRawObjects1 c) components standardComponentTypes
      in (\<lparr> c_id = rc_id c, c_name = rc_name c, c_age = rc_age c,
            c_occupation = rc_occupation c, c_imagePrompt = rc_imagePrompt c,
            c_description = rc_bio c, c_role = toLowerCase (rc_role c),
            c_isSuspect = rc_isSuspect c,
            c_connections =
              (case rc_connections c of
                 None \<Rightarrow> \<lparr> relatedPeople = [], knownLocations = [], associatedObjects = [] \<rparr>
               | Some cn \<Rightarrow> cn),
            c_testimonyIds = testimonyIds,
            c_components = components1 \<rparr>,
          allRawObjects1, testimonies1))"

fun transformCharacterData ::
  "(RawCharacter \<Rightarrow> string) \<Rightarrow> RawCharacter list \<Rightarrow> RawObject list \<Rightarrow> Testimony list
     \<Rightarrow> Character list \<times> RawObject list \<times> Testimony list" where
  "transformCharacterData clock [] allRawObjects testimonies0 = ([], allRawObjects, testimonies0)"
| "transformCharacterData clock (c # cs) allRawObjects testimonies0 =
     (case transformCharacter (clock c) c allRawObjects testimonies0 of
        (character, allRawObjects1, testimonies1) \<Rightarrow>
          (case transformCharacterData clock cs allRawObjects1 testimonies1 of
             (rest, allRawObjects2, testimonies2) \<Rightarrow> (character # rest, allRawObjects2, testimonies2)))"

section \<open>The charge of a first unlock\<close>

text \<open>The charge of a first unlock: \<^verbatim>\<open>item.timeToAdd ?? 0\<close>.\<close>

definition firstUnlockCost :: "StoryObject \<Rightarrow> int" where
  "firstUnlockCost item = (case o_timeToAdd item of None \<Rightarrow> 0 | Some t \<Rightarrow> t)"

section \<open>Sessions of store operations\<close>

text \<open>The three operations on the entity store that touch an object's unlock flag or the
  time counter, and a session as the list of operations dispatched.\<close>

datatype StoreOp =
    AddToTimeline string
  | RemoveFromTimeline string
  | UnlockEntity UnlockType string int

fun applyOp :: "'z StoryState_scheme \<Rightarrow> StoreOp \<Rightarrow> 'z StoryState_scheme" where
  "applyOp state (AddToTimeline k) = addToTimeline state k"
| "applyOp state (RemoveFromTimeline k) = removeFromTimeline state k"
| "applyOp state (UnlockEntity ty ref cost) = unlockEntity state ty ref cost"

fun run :: "'z StoryState_scheme \<Rightarrow> StoreOp list \<Rightarrow> 'z StoryState_scheme" where
  "run state [] = state"
| "run state (op # ops) = run (applyOp state op) ops"

text \<open>The \<^verbatim>\<open>hasBeenUnlocked\<close> flag of the object stored under \<open>k\<close>, if there is one.\<close>

definition unlockedFlag :: "'z StoryState_scheme \<Rightarrow> string \<Rightarrow> bool option" where
  "unlockedFlag state k = map_option o_hasBeenUnlocked (entityAt o_id (objects state) k)"

definition timeToAddOf :: "'z StoryState_scheme \<Rightarrow> string \<Rightarrow> int" where
  "timeToAddOf state k =
     (case entityAt o_id (objects state) k of None \<Rightarrow> 0 | Some item \<Rightarrow> firstUnlockCost item)"

text \<open>
  The ledger of a session: an entry \<open>(k, t)\<close> for every \<^verbatim>\<open>addToTimeline(k)\<close> step at which
  the flag of \<open>k\<close> goes from false to true, with \<open>t\<close> the object's \<^verbatim>\<open>timeToAdd\<close>; and the
  costs passed to the \<^verbatim>\<open>unlockEntity\<close> steps.
\<close>

fun timelineCredits :: "'z StoryState_scheme \<Rightarrow> StoreOp list \<Rightarrow> (string \<times> int) list" where
  "timelineCredits state [] = []"
| "timelineCredits state (AddToTimeline k # ops) =
     (if unlockedFlag state k = Some False \<and> unlockedFlag (addToTimeline state k) k = Some True
      then [(k, timeToAddOf state k)] else [])
     @ timelineCredits (addToTimeline state k) ops"
| "timelineCredits state (op # ops) = timelineCredits (applyOp state op) ops"

fun unlockCosts :: "StoreOp list \<Rightarrow> int list" where
  "unlockCosts [] = []"
| "unlockCosts (UnlockEntity ty ref cost # ops) = cost # unlockCosts ops"
| "unlockCosts (op # ops) = unlockCosts ops"

section \<open>Correct placements in the words of the specification\<close>

text \<open>
  In the words of the specification. A slot of the table is filled when it holds the id
  of a placed clue. A placement is correct for a PRIMARY clue on a slot whose
  \<^verbatim>\<open>correctEventKey\<close> is the clue's \<^verbatim>\<open>eventKey\<close>, and for a SUPPORTING clue when the active
  anchor's primary slot is filled, the slot is one of that anchor's supporting slots and
  the clue's category is the anchor's id.
\<close>

definition slotFilled :: "EvidenceSlot list \<Rightarrow> string \<Rightarrow> bool" where
  "slotFilled table k =
     (case find (\<lambda>s. slotId s = k) table of
        None \<Rightarrow> False
      | Some p \<Rightarrow> placedClueId p \<noteq> None \<and> placedClueId p \<noteq> Some [])"

definition correctPlacement ::
  "CaseFileState \<Rightarrow> Clue \<Rightarrow> EvidenceSlot \<Rightarrow> TimelineAnchor \<Rightarrow> string \<Rightarrow> bool" where
  "correctPlacement state clue slot anchor sid =
     ((cl_type clue = ''PRIMARY'' \<and> correctEventKey slot = Some (cl_eventKey clue))
      \<or> (cl_type clue = ''SUPPORTING''
          \<and> slotFilled (slots state) (slotId (primarySlot anchor))
          \<and> sid \<in> slotId ` set (supportingSlots anchor) \<and> cl_category clue = a_id anchor))"

text \<open>The points of a clue with its optional bonus: \<^verbatim>\<open>clue.points + (clue.bonusPoints || 0)\<close>.\<close>

definition cluePoints :: "Clue \<Rightarrow> int" where
  "cluePoints clue = cl_points clue + (case cl_bonusPoints clue of None \<Rightarrow> 0 | Some b \<Rightarrow> b)"

section \<open>Settled image requests\<close>

text \<open>
  A request is settled in a state when its card is no longer loading and, according to
  what the collaborators did for it, a URL is published for the card or the card's error
  flag is true.
\<close>

definition settled ::
  "(ImageGenerationRequest \<Rightarrow> Outcome) \<Rightarrow> 'z StoryState_scheme \<Rightarrow> ImageGenerationRequest \<Rightarrow> bool" where
  "settled generateImageAPI state request =
     (imageLoading state (r_cardId request) = Some False
      \<and> (case generateImageAPI request of
            Generated objectURL \<Rightarrow> imageUrls state (r_cardId request) \<noteq> None
          | NoResult \<Rightarrow> imageErrors state (r_cardId request) = Some True
          | Thrown \<Rightarrow> imageErrors state (r_cardId request) = Some True))"

section \<open>Testimonies in the words of the specification\<close>

text \<open>
  What the specification asks of one raw character: with a non-empty statement, one
  testimony with id \<^verbatim>\<open>testimony-<characterId>\<close>, title \<^verbatim>\<open>Statement from <name>\<close>, the
  statement as content and the character as source; with an empty or absent statement,
  none.
\<close>

definition statementTestimonies :: "RawCharacter \<Rightarrow> Testimony list" where
  "statementTestimonies c =
     (case rc_statement c of
        None \<Rightarrow> []
      | Some statement \<Rightarrow>
          if statement = [] then []
          else [\<lparr> t_id = ''testimony-'' @ rc_id c, t_title = ''Statement from '' @ rc_name c,
                  t_content = statement, t_sourceCharacterId = rc_id c \<rparr>])"

section \<open>Example data\<close>

definition exampleObject :: StoryObject where
  "exampleObject =
     \<lparr> o_id = ''o1'', o_name = ''Knife'', o_imagePrompt = ''a knife'', o_description = ''A knife.'',
       o_unidentifiedDescription = ''Something sharp.'', o_timestamp = ''2025-01-01T10:00:00Z'',
       o_isEvidence = False, o_assignedToSuspectIds = [''c2''], o_locationFoundId = ''loc1'',
       o_category = ''physical'', o_tags = [], o_authorCharacterId = None,
       o_ownerCharacterId = None, o_timeToAdd = Some 15, o_hasBeenUnlocked = False,
       o_rarity = ''material'', o_components = [], o_unlocks = [] \<rparr>"

definition exampleLocation :: Location where
  "exampleLocation =
     \<lparr> l_id = ''loc1'', l_name = ''Alley'', l_imagePrompt = ''an alley'', l_description = ''Dark.'',
       l_lastEventTimestamp = ''2025-01-01T09:00:00Z'', l_lastEventDescription = ''A scream.'',
       l_sceneSummary = ''Nothing moves.'', l_isInternal = False \<rparr>"

definition exampleSublocation :: Sublocation where
  "exampleSublocation =
     \<lparr> sl_id = ''s1'', sl_name = ''Back room'', sl_description = ''Locked.'', sl_locationId = ''loc1'',
       sl_isVisible = False, sl_timeToAdd = 5, sl_hasBeenUnlocked = False \<rparr>"

definition exampleEvent :: StoryEvent where
  "exampleEvent =
     \<lparr> e_id = ''e1'', e_name = ''Argument'', e_imagePrompt = ''two men'', e_description = ''Loud.'',
       e_timestamp = ''2025-01-01T08:00:00Z'', e_locationId = ''loc1'', e_timeToAdd = 0,
       e_hasBeenUnlocked = False, e_rarity = ''irrelevant'', e_tags = [], e_components = [] \<rparr>"

definition exampleMechanics :: GameMechanics where
  "exampleMechanics =
     \<lparr> INITIAL_PLAYER_TIME_SPENT = 0, MILESTONE_THRESHOLD = 5, ACCUSATION_THRESHOLD = 10 \<rparr>"

definition exampleState :: StoryState where
  "exampleState =
     (createEmptyInitialState exampleMechanics)
       \<lparr> objects := [exampleObject], events := [exampleEvent], locations := [exampleLocation],
         sublocations := [exampleSublocation] \<rparr>"

definition timelineState :: StoryState where
  "timelineState =
     exampleState
       \<lparr> objects := [exampleObject\<lparr> o_isEvidence := True, o_hasBeenUnlocked := True \<rparr>],
         evidence := [evidenceEntry ''o1'' exampleObject exampleLocation],
         timeSpent := 15 \<rparr>"

definition noLocationState :: StoryState where
  "noLocationState = exampleState\<lparr> locations := [] \<rparr>"

definition exampleOps :: "StoreOp list" where
  "exampleOps =
     [AddToTimeline ''o1'', RemoveFromTimeline ''o1'', AddToTimeline ''o1'',
      UnlockEntity UT_location ''loc1'' 4]"

definition unlockThenAdd :: "StoreOp list" where
  "unlockThenAdd = [UnlockEntity UT_evidence ''o1'' 0, AddToTimeline ''o1'']"

definition primaryClue :: Clue where
  "primaryClue =
     \<lparr> cl_id = ''p1'', cl_eventKey = ''debt'', cl_text = ''He owed money.'', cl_type = ''PRIMARY'',
       cl_category = ''motive'', cl_points = 10, cl_bonusPoints = Some 5 \<rparr>"

definition supportingClue :: Clue where
  "supportingClue =
     \<lparr> cl_id = ''s1'', cl_eventKey = ''ledger'', cl_text = ''The ledger shows it.'',
       cl_type = ''SUPPORTING'', cl_category = ''motive'', cl_points = 3, cl_bonusPoints = None \<rparr>"

definition motivePrimarySlot :: EvidenceSlot where
  "motivePrimarySlot =
     \<lparr> slotId = ''motive-primary'', correctEventKey = Some ''debt'', placedClueId = None \<rparr>"

definition motiveSupportSlot :: EvidenceSlot where
  "motiveSupportSlot =
     \<lparr> slotId = ''motive-support-1'', correctEventKey = None, placedClueId = None \<rparr>"

definition motiveAnchor :: TimelineAnchor where
  "motiveAnchor =
     \<lparr> a_id = ''motive'', a_title = ''Motive'', a_timeLabel = ''Before'',
       primarySlot = motivePrimarySlot, supportingSlots = [motiveSupportSlot] \<rparr>"

definition exampleCaseFile :: CaseFileState where
  "exampleCaseFile =
     setSelectedClueId
       (loadCaseFileFromCartridge_fulfilled caseFile_createEmptyInitialState
          [primaryClue, supportingClue] [motiveAnchor])
       (Some ''p1'')"

definition solvedCaseFile :: CaseFileState where
  "solvedCaseFile = placeClueInSlot (\<lambda>k c table. table) exampleCaseFile ''motive-primary''"

definition exampleRequests :: "ImageGenerationRequest list" where
  "exampleRequests =
     [\<lparr> r_cardId = ''a'', r_prompt = ''a face'', r_colorTreatment = monochrome \<rparr>,
      \<lparr> r_cardId = ''b'', r_prompt = ''a knife'', r_colorTreatment = selectiveColor \<rparr>,
      \<lparr> r_cardId = ''c'', r_prompt = ''a map'', r_colorTreatment = mapTreatment \<rparr>]"

definition exampleService :: "ImageGenerationRequest \<Rightarrow> Outcome" where
  "exampleService request =
     (if r_cardId request = ''a'' then Generated ''blob:a''
      else if r_cardId request = ''b'' then NoResult else Thrown)"

definition queuedState :: StoryState where
  "queuedState = exampleState\<lparr> imageGenerationQueue := exampleRequests \<rparr>"

definition rawWitness :: RawCharacter where
  "rawWitness =
     \<lparr> rc_id = ''c1'', rc_name = ''Ada'', rc_age = ''40'', rc_role = ''Witness'',
       rc_occupation = ''Singer'', rc_imagePrompt = ''a singer'', rc_bio = ''Sings.'',
       rc_isSuspect = False, rc_statement = Some ''I saw nothing'', rc_components = None,
       rc_connections = None \<rparr>"

definition rawSilent :: RawCharacter where
  "rawSilent =
     \<lparr> rc_id = ''c2'', rc_name = ''Bo'', rc_age = ''35'', rc_role = ''suspect'',
       rc_occupation = ''Driver'', rc_imagePrompt = ''a driver'', rc_bio = ''Drives.'',
       rc_isSuspect = True, rc_statement = Some '''', rc_components = None,
       rc_connections = None \<rparr>"

section \<open>Facts about the adapter tables\<close>

lemma entityAt_Some_id: "entityAt sel es k = Some e \<Longrightarrow> sel e = k"
  by (induction es) (auto split: if_splits)

lemma entityAt_updateOne:
  assumes "\<And>e. sel (f e) = sel e"
  shows "entityAt sel (updateOne sel k f es) k' =
           (if k' = k then map_option f (entityAt sel es k) else entityAt sel es k')"
  using assms by (induction es) auto

lemma map_sel_updateOne:
  assumes "\<And>e. sel (f e) = sel e"
  shows "map sel (updateOne sel k f es) = map sel es"
  using assms by (induction es) auto

lemma updateOne_absent: "entityAt sel es k = None \<Longrightarrow> updateOne sel k f es = es"
  by (induction es) (auto split: if_splits)

section \<open>Time bookkeeping\<close>

text \<open>
  Claim C10. For every state and every amount \<open>a\<close>, \<^verbatim>\<open>subtractTimeSpent(a)\<close> sets
  \<^verbatim>\<open>timeSpent\<close> to \<open>max 0 (timeSpent - a)\<close>, so the counter never becomes negative through
  this operation, and it changes no other part of the state.
\<close>

theorem subtractTimeSpent_clamps:
  "timeSpent (subtractTimeSpent state a) = max 0 (timeSpent state - a)
   \<and> 0 \<le> timeSpent (subtractTimeSpent state a)
   \<and> subtractTimeSpent state a = state\<lparr> timeSpent := timeSpent (subtractTimeSpent state a) \<rparr>"
  by (simp add: subtractTimeSpent_def)

section \<open>Unlocking entities\<close>

text \<open>
  Claim C6. Every call \<^verbatim>\<open>unlockEntity(type, ref, timeCost)\<close> adds \<open>timeCost\<close> to
  \<^verbatim>\<open>timeSpent\<close>, whatever the target. For a sublocation that exists and is locked, both
  \<^verbatim>\<open>isVisible\<close> and \<^verbatim>\<open>hasBeenUnlocked\<close> become true; for an object (type \<^verbatim>\<open>evidence\<close>) or an
  event that exists and is locked, \<^verbatim>\<open>hasBeenUnlocked\<close> becomes true; for the types
  \<^verbatim>\<open>location\<close> and \<^verbatim>\<open>character\<close> nothing but \<^verbatim>\<open>timeSpent\<close> changes.
\<close>

theorem unlockEntity_effect:
  "timeSpent (unlockEntity state ty ref cost) = timeSpent state + cost
   \<and> (ty = UT_sublocation \<and> entityAt sl_id (sublocations state) ref = Some sl
        \<and> \<not> sl_hasBeenUnlocked sl \<longrightarrow>
        entityAt sl_id (sublocations (unlockEntity state ty ref cost)) ref
          = Some (sl\<lparr> sl_isVisible := True, sl_hasBeenUnlocked := True \<rparr>))
   \<and> (ty = UT_evidence \<and> entityAt o_id (objects state) ref = Some ob
        \<and> \<not> o_hasBeenUnlocked ob \<longrightarrow>
        entityAt o_id (objects (unlockEntity state ty ref cost)) ref
          = Some (ob\<lparr> o_hasBeenUnlocked := True \<rparr>))
   \<and> (ty = UT_event \<and> entityAt e_id (events state) ref = Some ev
        \<and> \<not> e_hasBeenUnlocked ev \<longrightarrow>
        entityAt e_id (events (unlockEntity state ty ref cost)) ref
          = Some (ev\<lparr> e_hasBeenUnlocked := True \<rparr>))
   \<and> (ty = UT_location \<or> ty = UT_character \<longrightarrow>
        unlockEntity state ty ref cost = state\<lparr> timeSpent := timeSpent state + cost \<rparr>)"
  by (cases ty) (auto simp: unlockEntity_def Let_def entityAt_updateOne split: option.splits)

theorem unlockEntity_effect_witness:
  "entityAt sl_id (sublocations exampleState) ''s1'' = Some exampleSublocation
   \<and> \<not> sl_hasBeenUnlocked exampleSublocation
   \<and> entityAt sl_id (sublocations (unlockEntity exampleState UT_sublocation ''s1'' 5)) ''s1''
       = Some (exampleSublocation\<lparr> sl_isVisible := True, sl_hasBeenUnlocked := True \<rparr>)
   \<and> timeSpent (unlockEntity exampleState UT_sublocation ''s1'' 5) = 5
   \<and> entityAt o_id (objects exampleState) ''o1'' = Some exampleObject
   \<and> \<not> o_hasBeenUnlocked exampleObject
   \<and> entityAt o_id (objects (unlockEntity exampleState UT_evidence ''o1'' 3)) ''o1''
       = Some (exampleObject\<lparr> o_hasBeenUnlocked := True \<rparr>)
   \<and> entityAt e_id (events exampleState) ''e1'' = Some exampleEvent
   \<and> \<not> e_hasBeenUnlocked exampleEvent
   \<and> entityAt e_id (events (unlockEntity exampleState UT_event ''e1'' 2)) ''e1''
       = Some (exampleEvent\<lparr> e_hasBeenUnlocked := True \<rparr>)
   \<and> unlockEntity exampleState UT_location ''loc1'' 7 = exampleState\<lparr> timeSpent := 7 \<rparr>"
proof -
  have s: "entityAt sl_id (sublocations exampleState) ''s1'' = Some exampleSublocation"
    and o: "entityAt o_id (objects exampleState) ''o1'' = Some exampleObject"
    and e: "entityAt e_id (events exampleState) ''e1'' = Some exampleEvent"
    and t: "timeSpent exampleState = 0"
    by (simp_all add: exampleState_def createEmptyInitialState_def exampleSublocation_def
          exampleObject_def exampleEvent_def exampleMechanics_def)
  have f: "\<not> sl_hasBeenUnlocked exampleSublocation" "\<not> o_hasBeenUnlocked exampleObject"
    "\<not> e_hasBeenUnlocked exampleEvent"
    by (simp_all add: exampleSublocation_def exampleObject_def exampleEvent_def)
  show ?thesis
    using s o e t f
      unlockEntity_effect [where state = exampleState and ty = UT_sublocation and ref = "''s1''"
        and cost = 5 and sl = exampleSublocation]
      unlockEntity_effect [where state = exampleState and ty = UT_evidence and ref = "''o1''"
        and cost = 3 and ob = exampleObject]
      unlockEntity_effect [where state = exampleState and ty = UT_event and ref = "''e1''"
        and cost = 2 and ev = exampleEvent]
      unlockEntity_effect [where state = exampleState and ty = UT_location and ref = "''loc1''"
        and cost = 7]
    by simp
qed

section \<open>The evidence timeline\<close>

lemmas example_defs =
  exampleState_def createEmptyInitialState_def exampleSublocation_def exampleObject_def
  exampleEvent_def exampleMechanics_def exampleLocation_def

lemma onTimeline_iff: "onTimeline state k \<longleftrightarrow> k \<in> ev_cardId ` set (evidence state)"
  by (auto simp: onTimeline_def list_ex_iff)

lemma evidenceLocationFor_cong:
  "locations s' = locations s \<Longrightarrow> o_locationFoundId item' = o_locationFoundId item
   \<Longrightarrow> evidenceLocationFor s' item' = evidenceLocationFor s item"
  by (simp add: evidenceLocationFor_def split: option.splits)

text \<open>
  Claim C7. \<^verbatim>\<open>removeFromTimeline\<close> never changes \<^verbatim>\<open>timeSpent\<close> (no refund). When the object
  exists and its \<^verbatim>\<open>isEvidence\<close> flag says it is on the timeline, the call sets that flag to
  false, empties \<^verbatim>\<open>assignedToSuspectIds\<close> and drops the Evidence entries with its
  \<^verbatim>\<open>cardId\<close>; every other object, the order of the table and every other field of the
  state stay as they were. When the object does not exist or its flag is false, the call
  changes nothing.
\<close>

theorem removeFromTimeline_frame:
  "timeSpent (removeFromTimeline state k) = timeSpent state
   \<and> (entityAt o_id (objects state) k = None \<longrightarrow> removeFromTimeline state k = state)
   \<and> (entityAt o_id (objects state) k = Some item \<and> \<not> o_isEvidence item \<longrightarrow>
        removeFromTimeline state k = state)
   \<and> (entityAt o_id (objects state) k = Some item \<and> o_isEvidence item \<longrightarrow>
        removeFromTimeline state k
          = state\<lparr> objects := objects (removeFromTimeline state k),
                   evidence := evidence (removeFromTimeline state k) \<rparr>
        \<and> evidence (removeFromTimeline state k) = filter (\<lambda>e. ev_cardId e \<noteq> k) (evidence state)
        \<and> entityAt o_id (objects (removeFromTimeline state k)) k
            = Some (item\<lparr> o_isEvidence := False, o_assignedToSuspectIds := [] \<rparr>)
        \<and> (\<forall>k'. k' \<noteq> k \<longrightarrow>
              entityAt o_id (objects (removeFromTimeline state k)) k' = entityAt o_id (objects state) k')
        \<and> map o_id (objects (removeFromTimeline state k)) = map o_id (objects state))"
  by (simp add: removeFromTimeline_def entityAt_updateOne map_sel_updateOne split: option.splits)

theorem removeFromTimeline_frame_witness:
  "entityAt o_id (objects exampleState) ''o9'' = None
   \<and> removeFromTimeline exampleState ''o9'' = exampleState
   \<and> entityAt o_id (objects exampleState) ''o1'' = Some exampleObject
   \<and> \<not> o_isEvidence exampleObject
   \<and> removeFromTimeline exampleState ''o1'' = exampleState
   \<and> entityAt o_id (objects timelineState) ''o1''
       = Some (exampleObject\<lparr> o_isEvidence := True, o_hasBeenUnlocked := True \<rparr>)
   \<and> o_isEvidence (exampleObject\<lparr> o_isEvidence := True, o_hasBeenUnlocked := True \<rparr>)
   \<and> evidence (removeFromTimeline timelineState ''o1'') = []
   \<and> timeSpent (removeFromTimeline timelineState ''o1'') = 15
   \<and> entityAt o_id (objects (removeFromTimeline timelineState ''o1'')) ''o1''
       = Some (exampleObject\<lparr> o_isEvidence := False, o_hasBeenUnlocked := True,
                               o_assignedToSuspectIds := [] \<rparr>)"
proof -
  have a: "entityAt o_id (objects exampleState) ''o9'' = None"
    and b: "entityAt o_id (objects exampleState) ''o1'' = Some exampleObject"
    and c: "\<not> o_isEvidence exampleObject"
    and d: "entityAt o_id (objects timelineState) ''o1''
             = Some (exampleObject\<lparr> o_isEvidence := True, o_hasBeenUnlocked := True \<rparr>)"
    and e: "evidence timelineState = [evidenceEntry ''o1'' exampleObject exampleLocation]"
    and f: "timeSpent timelineState = 15"
    and g: "ev_cardId (evidenceEntry ''o1'' exampleObject exampleLocation) = ''o1''"
    by (simp_all add: timelineState_def example_defs evidenceEntry_def)
  show ?thesis
    using a b c d e f g
      removeFromTimeline_frame [where state = exampleState and k = "''o9''"]
      removeFromTimeline_frame [where state = exampleState and k = "''o1''" and item = exampleObject]
      removeFromTimeline_frame [where state = timelineState and k = "''o1''"
        and item = "exampleObject\<lparr> o_isEvidence := True, o_hasBeenUnlocked := True \<rparr>"]
    by simp
qed

text \<open>
  Claim C2, as the reducer has it. Take a state with an object \<open>k\<close> that has never been
  unlocked and has no Evidence entry, and for which a location resolves (its
  \<^verbatim>\<open>locationFoundId\<close> names a stored location, or the store has a first location). Then
  \<^verbatim>\<open>addToTimeline(k)\<close> adds the object's \<^verbatim>\<open>timeToAdd\<close> to \<^verbatim>\<open>timeSpent\<close>, sets
  \<^verbatim>\<open>hasBeenUnlocked\<close> and \<^verbatim>\<open>isEvidence\<close>, and appends one Evidence entry with \<^verbatim>\<open>cardId\<close> \<open>k\<close>,
  the only one; a second \<^verbatim>\<open>addToTimeline(k)\<close> changes nothing; and after
  \<^verbatim>\<open>removeFromTimeline(k)\<close> a further \<^verbatim>\<open>addToTimeline(k)\<close> charges nothing and restores the
  entry.
\<close>

theorem addToTimeline_first_unlock:
  assumes "entityAt o_id (objects state) k = Some item"
    and "\<not> o_hasBeenUnlocked item"
    and "\<not> onTimeline state k"
    and "evidenceLocationFor state item = Some location"
  shows "timeSpent (addToTimeline state k) = timeSpent state + firstUnlockCost item
    \<and> entityAt o_id (objects (addToTimeline state k)) k
        = Some (item\<lparr> o_isEvidence := True, o_hasBeenUnlocked := True \<rparr>)
    \<and> evidence (addToTimeline state k) = evidence state @ [evidenceEntry k item location]
    \<and> ev_cardId (evidenceEntry k item location) = k
    \<and> filter (\<lambda>e. ev_cardId e = k) (evidence (addToTimeline state k)) = [evidenceEntry k item location]
    \<and> addToTimeline (addToTimeline state k) k = addToTimeline state k
    \<and> timeSpent (removeFromTimeline (addToTimeline state k) k) = timeSpent (addToTimeline state k)
    \<and> \<not> onTimeline (removeFromTimeline (addToTimeline state k) k) k
    \<and> timeSpent (addToTimeline (removeFromTimeline (addToTimeline state k) k) k)
        = timeSpent (addToTimeline state k)
    \<and> evidence (addToTimeline (removeFromTimeline (addToTimeline state k) k) k)
        = evidence (addToTimeline state k)"
proof -
  let ?item1 = "item\<lparr> o_isEvidence := True, o_hasBeenUnlocked := True \<rparr>"
  let ?entry = "evidenceEntry k item location"
  let ?s1 = "state\<lparr> timeSpent := timeSpent state + firstUnlockCost item,
                    objects := updateOne o_id k
                      (\<lambda>x. x\<lparr> o_isEvidence := True, o_hasBeenUnlocked := True \<rparr>) (objects state),
                    evidence := evidence state @ [?entry] \<rparr>"
  have idk: "o_id item = k" using assms(1) by (rule entityAt_Some_id)
  have card: "ev_cardId ?entry = k" by (simp add: evidenceEntry_def idk)
  have notin: "k \<notin> ev_cardId ` set (evidence state)" using assms(3) by (simp add: onTimeline_iff)
  let ?s1' = "state\<lparr> timeSpent := timeSpent state + firstUnlockCost item,
                    objects := updateOne o_id k
                      (\<lambda>x. x\<lparr> o_isEvidence := True, o_hasBeenUnlocked := True \<rparr>) (objects state) \<rparr>"
  have loc1: "evidenceLocationFor ?s1' item = Some location"
    using assms(4) evidenceLocationFor_cong [of ?s1' state item item] by simp
  have on1': "\<not> onTimeline ?s1' k" using notin by (simp add: onTimeline_iff)
  have s1: "addToTimeline state k = ?s1"
    using assms(1,2,3) loc1 on1'
    by (simp add: addToTimeline_def Let_def firstUnlockCost_def)
  have obj1: "entityAt o_id (objects ?s1) k = Some ?item1"
    using assms(1) by (simp add: entityAt_updateOne)
  have on1: "onTimeline ?s1 k" by (simp add: onTimeline_iff card)
  have again: "addToTimeline ?s1 k = ?s1"
    using obj1 on1 by (simp add: addToTimeline_def)
  have filt: "filter (\<lambda>e. ev_cardId e = k) (evidence ?s1) = [?entry]"
    using notin card by (auto simp: filter_empty_conv)
  let ?item2 = "?item1\<lparr> o_isEvidence := False, o_assignedToSuspectIds := [] \<rparr>"
  let ?s2 = "?s1\<lparr> objects := updateOne o_id k
                      (\<lambda>x. x\<lparr> o_isEvidence := False, o_assignedToSuspectIds := [] \<rparr>) (objects ?s1),
                  evidence := evidence state \<rparr>"
  have filt2: "filter (\<lambda>e. ev_cardId e \<noteq> k) (evidence ?s1) = evidence state"
    using notin card by (auto simp: filter_id_conv)
  have s2: "removeFromTimeline ?s1 k = ?s2"
    using obj1 filt2 by (simp add: removeFromTimeline_def)
  have obj2: "entityAt o_id (objects ?s2) k = Some ?item2"
    using assms(1) by (simp add: entityAt_updateOne)
  have on2: "\<not> onTimeline ?s2 k" using notin by (simp add: onTimeline_iff)
  have loc2: "evidenceLocationFor ?s2 ?item2 = Some location"
    using assms(4) evidenceLocationFor_cong [of ?s2 state ?item2 item] by simp
  let ?s3' = "?s2\<lparr> objects := updateOne o_id k (\<lambda>x. x\<lparr> o_isEvidence := True \<rparr>) (objects ?s2) \<rparr>"
  have loc3: "evidenceLocationFor ?s3' ?item2 = Some location"
    using assms(4) evidenceLocationFor_cong [of ?s3' state ?item2 item] by simp
  have on3': "\<not> onTimeline ?s3' k" using notin by (simp add: onTimeline_iff)
  have entry2: "evidenceEntry k ?item2 location = ?entry" by (simp add: evidenceEntry_def)
  have s3t: "timeSpent (addToTimeline ?s2 k) = timeSpent ?s1"
    and s3e: "evidence (addToTimeline ?s2 k) = evidence ?s1"
    using obj2 on2 loc3 on3' entry2
    by (simp_all add: addToTimeline_def Let_def)
  show ?thesis
    unfolding s1 again s2 using obj1 card filt on2 s3t s3e by simp
qed

theorem addToTimeline_first_unlock_witness:
  "entityAt o_id (objects exampleState) ''o1'' = Some exampleObject
   \<and> \<not> o_hasBeenUnlocked exampleObject
   \<and> \<not> onTimeline exampleState ''o1''
   \<and> evidenceLocationFor exampleState exampleObject = Some exampleLocation
   \<and> timeSpent (addToTimeline exampleState ''o1'') = 15
   \<and> evidence (addToTimeline exampleState ''o1'') = [evidenceEntry ''o1'' exampleObject exampleLocation]
   \<and> addToTimeline (addToTimeline exampleState ''o1'') ''o1'' = addToTimeline exampleState ''o1''
   \<and> timeSpent (addToTimeline (removeFromTimeline (addToTimeline exampleState ''o1'') ''o1'') ''o1'') = 15
   \<and> evidence (addToTimeline (removeFromTimeline (addToTimeline exampleState ''o1'') ''o1'') ''o1'')
       = [evidenceEntry ''o1'' exampleObject exampleLocation]"
proof -
  have a: "entityAt o_id (objects exampleState) ''o1'' = Some exampleObject"
    and b: "\<not> o_hasBeenUnlocked exampleObject"
    and c: "\<not> onTimeline exampleState ''o1''"
    and d: "evidenceLocationFor exampleState exampleObject = Some exampleLocation"
    and e: "timeSpent exampleState = 0" "evidence exampleState = []"
      "firstUnlockCost exampleObject = 15"
    by (simp_all add: example_defs onTimeline_def evidenceLocationFor_def firstUnlockCost_def)
  show ?thesis
    using a b c d e addToTimeline_first_unlock [OF a b c d] by simp
qed

text \<open>Without a location the reducer charges the time and sets the flags, and appends no
  Evidence entry.\<close>

theorem addToTimeline_no_location_counterexample:
  "entityAt o_id (objects noLocationState) ''o1'' = Some exampleObject
   \<and> \<not> o_hasBeenUnlocked exampleObject
   \<and> o_timeToAdd exampleObject = Some 15
   \<and> \<not> onTimeline noLocationState ''o1''
   \<and> timeSpent (addToTimeline noLocationState ''o1'') = timeSpent noLocationState + 15
   \<and> evidence (addToTimeline noLocationState ''o1'') = []"
  by (simp add: noLocationState_def example_defs addToTimeline_def onTimeline_def
      evidenceLocationFor_def firstValue_def ownKeys_def Let_def)

section \<open>Unlock flags and time credits over a session\<close>

lemma unlockedFlag_addToTimeline:
  "unlockedFlag (addToTimeline state k) k' =
     (if k' = k \<and> unlockedFlag state k = Some False \<and> \<not> onTimeline state k
      then Some True else unlockedFlag state k')"
  by (auto simp: addToTimeline_def unlockedFlag_def Let_def entityAt_updateOne
      split: option.splits)

lemma unlockedFlag_removeFromTimeline:
  "unlockedFlag (removeFromTimeline state k) k' = unlockedFlag state k'"
  by (auto simp: removeFromTimeline_def unlockedFlag_def entityAt_updateOne split: option.splits)

lemma unlockedFlag_unlockEntity:
  "unlockedFlag (unlockEntity state ty ref cost) k' =
     (if ty = UT_evidence \<and> k' = ref \<and> unlockedFlag state ref = Some False
      then Some True else unlockedFlag state k')"
  by (cases ty)
     (auto simp: unlockEntity_def unlockedFlag_def Let_def entityAt_updateOne split: option.splits)

lemma unlockedFlag_step:
  "unlockedFlag state k = Some True \<Longrightarrow> unlockedFlag (applyOp state op) k = Some True"
  by (cases op)
     (simp_all add: unlockedFlag_addToTimeline unlockedFlag_removeFromTimeline
        unlockedFlag_unlockEntity)

lemma unlockedFlag_run:
  "unlockedFlag state k = Some True \<Longrightarrow> unlockedFlag (run state ops) k = Some True"
  by (induction ops arbitrary: state) (simp_all add: unlockedFlag_step)

lemma timeSpent_addToTimeline_guard:
  "timeSpent (addToTimeline state k) =
     timeSpent state
     + (if unlockedFlag state k = Some False \<and> \<not> onTimeline state k
        then timeToAddOf state k else 0)"
proof (cases "entityAt o_id (objects state) k")
  case None
  then show ?thesis by (simp add: addToTimeline_def unlockedFlag_def)
next
  case (Some item)
  show ?thesis
  proof (cases "onTimeline state k")
    case True
    then show ?thesis using Some by (simp add: addToTimeline_def)
  next
    case False
    show ?thesis
    proof (cases "o_hasBeenUnlocked item")
      case True
      then show ?thesis
        using Some False
        by (simp add: addToTimeline_def unlockedFlag_def Let_def split: option.splits)
    next
      case unl: False
      then show ?thesis
        using Some False
        by (simp add: addToTimeline_def unlockedFlag_def timeToAddOf_def firstUnlockCost_def
            Let_def split: option.splits)
    qed
  qed
qed

lemma timeSpent_addToTimeline:
  "timeSpent (addToTimeline state k) =
     timeSpent state
     + (if unlockedFlag state k = Some False \<and> unlockedFlag (addToTimeline state k) k = Some True
        then timeToAddOf state k else 0)"
  unfolding timeSpent_addToTimeline_guard [of state k] unlockedFlag_addToTimeline [of state k k]
  by auto

lemma timeSpent_removeFromTimeline: "timeSpent (removeFromTimeline state k) = timeSpent state"
  by (simp add: removeFromTimeline_def split: option.splits)

lemma timeSpent_unlockEntity: "timeSpent (unlockEntity state ty ref cost) = timeSpent state + cost"
  by (cases ty) (simp_all add: unlockEntity_def Let_def split: option.splits)

lemma timeSpent_run:
  "timeSpent (run state ops) =
     timeSpent state + sum_list (map snd (timelineCredits state ops)) + sum_list (unlockCosts ops)"
proof (induction ops arbitrary: state)
  case Nil
  show ?case by simp
next
  case (Cons op ops)
  show ?case
  proof (cases op)
    case (AddToTimeline k)
    show ?thesis
      using Cons.IH [of "addToTimeline state k"] timeSpent_addToTimeline [of state k]
      by (simp add: AddToTimeline)
  next
    case (RemoveFromTimeline k)
    show ?thesis
      using Cons.IH [of "removeFromTimeline state k"]
      by (simp add: RemoveFromTimeline timeSpent_removeFromTimeline)
  next
    case (UnlockEntity ty ref cost)
    show ?thesis
      using Cons.IH [of "unlockEntity state ty ref cost"]
      by (simp add: UnlockEntity timeSpent_unlockEntity)
  qed
qed

lemma credits_locked:
  "(k, t) \<in> set (timelineCredits state ops) \<Longrightarrow> unlockedFlag state k \<noteq> Some True"
proof (induction ops arbitrary: state)
  case Nil
  then show ?case by simp
next
  case (Cons op ops)
  show ?case
  proof
    assume u: "unlockedFlag state k = Some True"
    have step: "unlockedFlag (applyOp state op) k = Some True" using u by (rule unlockedFlag_step)
    have rest: "(k, t) \<notin> set (timelineCredits (applyOp state op) ops)"
      using Cons.IH [of "applyOp state op"] step by blast
    show False
      using Cons.prems u rest by (cases op) (auto split: if_splits)
  qed
qed

lemma credits_distinct: "distinct (map fst (timelineCredits state ops))"
proof (induction ops arbitrary: state)
  case Nil
  show ?case by simp
next
  case (Cons op ops)
  show ?case
  proof (cases op)
    case (AddToTimeline k)
    have "\<And>t. unlockedFlag (addToTimeline state k) k = Some True
            \<Longrightarrow> (k, t) \<notin> set (timelineCredits (addToTimeline state k) ops)"
      using credits_locked by blast
    then show ?thesis
      using Cons.IH [of "addToTimeline state k"] by (auto simp: AddToTimeline)
  next
    case (RemoveFromTimeline k)
    show ?thesis using Cons.IH [of "removeFromTimeline state k"] by (simp add: RemoveFromTimeline)
  next
    case (UnlockEntity ty ref cost)
    show ?thesis using Cons.IH [of "unlockEntity state ty ref cost"] by (simp add: UnlockEntity)
  qed
qed

lemma timeToAddOf_step: "timeToAddOf (applyOp state op) k = timeToAddOf state k"
proof (cases op)
  case (AddToTimeline x)
  then show ?thesis
    by (auto simp: addToTimeline_def timeToAddOf_def firstUnlockCost_def Let_def entityAt_updateOne
        split: option.splits)
next
  case (RemoveFromTimeline x)
  then show ?thesis
    by (auto simp: removeFromTimeline_def timeToAddOf_def firstUnlockCost_def entityAt_updateOne
        split: option.splits)
next
  case (UnlockEntity ty ref cost)
  then show ?thesis
    by (cases ty)
       (auto simp: unlockEntity_def timeToAddOf_def firstUnlockCost_def Let_def entityAt_updateOne
        split: option.splits)
qed

lemma timeToAddOf_run: "timeToAddOf (run state ops) k = timeToAddOf state k"
  by (induction ops arbitrary: state) (simp_all add: timeToAddOf_step)

lemma credits_amount:
  "(k, t) \<in> set (timelineCredits state ops) \<Longrightarrow> t = timeToAddOf state k"
proof (induction ops arbitrary: state)
  case Nil
  then show ?case by simp
next
  case (Cons op ops)
  show ?case
    using Cons.prems Cons.IH [of "applyOp state op"] timeToAddOf_step [of state op k]
    by (cases op) (auto split: if_splits)
qed

lemma credits_unlocked_after:
  "(k, t) \<in> set (timelineCredits state ops) \<Longrightarrow> unlockedFlag (run state ops) k = Some True"
proof (induction ops arbitrary: state)
  case Nil
  then show ?case by simp
next
  case (Cons op ops)
  show ?case
    using Cons.prems Cons.IH [of "applyOp state op"]
    by (cases op) (auto split: if_splits simp: unlockedFlag_run)
qed

lemma unlockedFlag_None_step:
  "(unlockedFlag (applyOp state op) k = None) = (unlockedFlag state k = None)"
  by (cases op)
     (auto simp: unlockedFlag_addToTimeline unlockedFlag_removeFromTimeline
        unlockedFlag_unlockEntity)

lemma unlockedFlag_None_run:
  "(unlockedFlag (run state ops) k = None) = (unlockedFlag state k = None)"
  by (induction ops arbitrary: state) (simp_all add: unlockedFlag_None_step)

lemma exampleState_facts:
  "unlockedFlag exampleState ''o1'' = Some False"
  "timeToAddOf exampleState ''o1'' = 15"
  "timeSpent exampleState = 0"
  "\<not> onTimeline exampleState ''o1''"
  by (simp_all add: unlockedFlag_def timeToAddOf_def firstUnlockCost_def onTimeline_def example_defs)

text \<open>
  Claim C1, as the reducers have it. Over every sequence of \<^verbatim>\<open>addToTimeline\<close>,
  \<^verbatim>\<open>removeFromTimeline\<close> and \<^verbatim>\<open>unlockEntity\<close> operations, an object's \<^verbatim>\<open>hasBeenUnlocked\<close>
  flag, once true, stays true, and objects neither appear nor disappear. The object's
  \<^verbatim>\<open>timeToAdd\<close> is credited to \<^verbatim>\<open>timeSpent\<close> by \<^verbatim>\<open>addToTimeline\<close> exactly at a step where that
  call moves the flag from false to true, hence at most once per object; the final
  \<^verbatim>\<open>timeSpent\<close> is the initial one plus these credits plus the costs passed to
  \<^verbatim>\<open>unlockEntity\<close>. When \<^verbatim>\<open>unlockEntity\<close> makes the transition, the call's own cost is
  credited and the object's \<^verbatim>\<open>timeToAdd\<close> is not.
\<close>

theorem hasBeenUnlocked_monotone_credit_once:
  "(unlockedFlag state k = Some True \<longrightarrow> unlockedFlag (run state ops) k = Some True)
   \<and> (unlockedFlag (run state ops) k = None) = (unlockedFlag state k = None)
   \<and> distinct (map fst (timelineCredits state ops))
   \<and> (\<forall>t. (k, t) \<in> set (timelineCredits state ops) \<longrightarrow>
          t = timeToAddOf state k \<and> unlockedFlag state k \<noteq> Some True
          \<and> unlockedFlag (run state ops) k = Some True)
   \<and> timeSpent (run state ops)
       = timeSpent state + sum_list (map snd (timelineCredits state ops)) + sum_list (unlockCosts ops)"
proof (intro conjI allI impI)
  show "unlockedFlag (run state ops) k = Some True" if "unlockedFlag state k = Some True"
    using that by (rule unlockedFlag_run)
  show "(unlockedFlag (run state ops) k = None) = (unlockedFlag state k = None)"
    by (rule unlockedFlag_None_run)
  show "distinct (map fst (timelineCredits state ops))"
    by (rule credits_distinct)
  show "timeSpent (run state ops)
       = timeSpent state + sum_list (map snd (timelineCredits state ops)) + sum_list (unlockCosts ops)"
    by (rule timeSpent_run)
next
  fix t
  assume h: "(k, t) \<in> set (timelineCredits state ops)"
  show "t = timeToAddOf state k" using h by (rule credits_amount)
  show "unlockedFlag state k \<noteq> Some True" using h by (rule credits_locked)
  show "unlockedFlag (run state ops) k = Some True" using h by (rule credits_unlocked_after)
qed

theorem hasBeenUnlocked_monotone_credit_once_witness:
  "unlockedFlag timelineState ''o1'' = Some True
   \<and> unlockedFlag (run timelineState [RemoveFromTimeline ''o1'', AddToTimeline ''o1'']) ''o1'' = Some True
   \<and> timelineCredits exampleState exampleOps = [(''o1'', 15)]
   \<and> timeToAddOf exampleState ''o1'' = 15
   \<and> unlockedFlag (run exampleState exampleOps) ''o1'' = Some True
   \<and> timeSpent (run exampleState exampleOps) = 19"
proof -
  have a: "unlockedFlag timelineState ''o1'' = Some True"
    by (simp add: unlockedFlag_def timelineState_def example_defs)
  have e: "timelineCredits exampleState exampleOps = [(''o1'', 15)]"
    by (simp add: exampleOps_def exampleState_facts unlockedFlag_addToTimeline
        unlockedFlag_removeFromTimeline)
  have g: "unlockCosts exampleOps = [4]" by (simp add: exampleOps_def)
  have m: "(''o1'', 15) \<in> set (timelineCredits exampleState exampleOps)" by (simp add: e)
  note t1 = hasBeenUnlocked_monotone_credit_once [where state = timelineState and k = "''o1''"
        and ops = "[RemoveFromTimeline ''o1'', AddToTimeline ''o1'']"]
  note t2 = hasBeenUnlocked_monotone_credit_once [where state = exampleState and k = "''o1''"
        and ops = exampleOps]
  have r1: "unlockedFlag (run timelineState [RemoveFromTimeline ''o1'', AddToTimeline ''o1'']) ''o1'' = Some True"
    using t1 a by blast
  have r2: "unlockedFlag (run exampleState exampleOps) ''o1'' = Some True"
    using t2 m by blast
  have r3: "timeSpent (run exampleState exampleOps) = 19"
    using t2 by (simp only: e g exampleState_facts) simp
  show ?thesis using a e exampleState_facts(2) r1 r2 r3 by blast
qed

text \<open>An object unlocked through \<^verbatim>\<open>unlockEntity\<close> and then added to the timeline: its flag
  has gone from false to true and its \<^verbatim>\<open>timeToAdd\<close> of 15 has not been credited.\<close>

theorem timeToAdd_never_credited_counterexample:
  "unlockedFlag exampleState ''o1'' = Some False
   \<and> unlockedFlag (run exampleState unlockThenAdd) ''o1'' = Some True
   \<and> timeToAddOf exampleState ''o1'' = 15
   \<and> timeSpent (run exampleState unlockThenAdd) = timeSpent exampleState"
proof -
  have u: "unlockedFlag (unlockEntity exampleState UT_evidence ''o1'' 0) ''o1'' = Some True"
    by (simp add: unlockedFlag_unlockEntity exampleState_facts)
  have t: "timeSpent (run exampleState unlockThenAdd) = timeSpent exampleState"
    by (simp add: unlockThenAdd_def timeSpent_addToTimeline_guard timeSpent_unlockEntity u)
  have f: "unlockedFlag (run exampleState unlockThenAdd) ''o1'' = Some True"
    by (simp add: unlockThenAdd_def unlockedFlag_addToTimeline u)
  show ?thesis using exampleState_facts(1,2) t f by blast
qed

section \<open>Placing clues\<close>

lemmas caseFile_defs =
  primaryClue_def supportingClue_def motivePrimarySlot_def motiveSupportSlot_def motiveAnchor_def

lemma exampleCaseFile_eq:
  "exampleCaseFile =
     \<lparr> viewMode = VM_workspace, activeTab = ''motive'', selectedClueId = Some ''p1'',
       clues = [primaryClue, supportingClue], slots = [motivePrimarySlot, motiveSupportSlot],
       anchors = [motiveAnchor], score = 0, lastIncorrectSlotId = None \<rparr>"
  by (simp add: exampleCaseFile_def setSelectedClueId_def loadCaseFileFromCartridge_fulfilled_def
      caseFile_createEmptyInitialState_def setAll_def addOne_def caseFile_defs)

lemma solvedCaseFile_eq:
  "solvedCaseFile =
     \<lparr> viewMode = VM_workspace, activeTab = ''motive'', selectedClueId = None,
       clues = [primaryClue, supportingClue],
       slots = [motivePrimarySlot\<lparr> placedClueId := Some ''p1'' \<rparr>, motiveSupportSlot],
       anchors = [motiveAnchor], score = 15, lastIncorrectSlotId = None \<rparr>"
  by (simp add: solvedCaseFile_def exampleCaseFile_eq placeClueInSlot_def propertyAt_def
      activeAnchor_def Let_def caseFile_defs)

text \<open>
  The entry of a table under a key is the first entity with that key, and the three
  kinds of value of \<^verbatim>\<open>entities[k]\<close> are told apart by the entry and the inherited names.
\<close>

lemma entityAt_find: "entityAt sel es k = find (\<lambda>e. sel e = k) es"
  by (induction es) auto

lemma propertyAt_own: "entityAt sel es k = Some e \<Longrightarrow> propertyAt sel es k = OwnEntry e"
  by (simp add: propertyAt_def)

lemma propertyAt_OwnEntry_iff: "propertyAt sel es k = OwnEntry e \<longleftrightarrow> entityAt sel es k = Some e"
  by (simp add: propertyAt_def split: option.splits)

lemma propertyAt_NoProperty_iff:
  "propertyAt sel es k = NoProperty \<longleftrightarrow> entityAt sel es k = None \<and> k \<notin> set inheritedNames"
  by (simp add: propertyAt_def split: option.splits)

lemma propertyAt_InheritedValue_iff:
  "propertyAt sel es k = InheritedValue \<longleftrightarrow> entityAt sel es k = None \<and> k \<in> set inheritedNames"
  by (simp add: propertyAt_def split: option.splits)

lemma primarySlotFilled_slotFilled:
  "primarySlotFilled state anchor = slotFilled (slots state) (slotId (primarySlot anchor))"
proof (cases "entityAt slotId (slots state) (slotId (primarySlot anchor))")
  case None
  then show ?thesis
    by (simp add: primarySlotFilled_def slotFilled_def propertyAt_def entityAt_find [symmetric])
next
  case (Some p)
  then show ?thesis
    by (cases "placedClueId p")
      (simp_all add: primarySlotFilled_def slotFilled_def propertyAt_def entityAt_find [symmetric])
qed

text \<open>
  With no clue selected, with a clue id or a slot id that names no property of its
  dictionary, or with no active anchor, the reducer returns at one of its guards.
\<close>

lemma placeClueInSlot_no_selection:
  "selectedClueId state = None \<or> selectedClueId state = Some [] \<Longrightarrow>
     placeClueInSlot upd state sid = state"
  by (auto simp: placeClueInSlot_def)

lemma placeClueInSlot_unresolved:
  assumes "selectedClueId state = Some clueId"
    and "propertyAt cl_id (clues state) clueId = NoProperty
         \<or> propertyAt slotId (slots state) sid = NoProperty
         \<or> activeAnchor state = None"
  shows "placeClueInSlot upd state sid = state"
proof (cases "activeAnchor state")
  case None
  then show ?thesis using assms(1) by (simp add: placeClueInSlot_def Let_def)
next
  case (Some anchor)
  then have "propertyAt cl_id (clues state) clueId = NoProperty
         \<or> propertyAt slotId (slots state) sid = NoProperty"
    using assms(2) by simp
  then show ?thesis using assms(1) Some by (simp add: placeClueInSlot_def Let_def)
qed

text \<open>
  When the selected clue and the slot are entries of their tables and the active tab has
  an anchor, the placement is taken for correct exactly under the condition of the
  specification. A correct placement sets the slot's \<^verbatim>\<open>placedClueId\<close> to the clue id,
  leaves the other slots and the clue list alone, adds the clue's points and bonus to the
  score and clears the selection and the incorrect-slot marker; an incorrect one sets
  \<^verbatim>\<open>lastIncorrectSlotId\<close> to the slot and changes nothing else.
\<close>

lemma placeClueInSlot_resolved:
  assumes sel: "selectedClueId state = Some clueId" "clueId \<noteq> []"
    and clue: "entityAt cl_id (clues state) clueId = Some clue"
    and slot: "entityAt slotId (slots state) sid = Some slot"
    and anchor: "activeAnchor state = Some anchor"
  shows "placeClueInSlot upd state sid =
     (if correctPlacement state clue slot anchor sid
      then state\<lparr> slots := updateOne slotId sid (\<lambda>x. x\<lparr> placedClueId := Some clueId \<rparr>) (slots state),
                  score := score state + cluePoints clue,
                  selectedClueId := None, lastIncorrectSlotId := None \<rparr>
      else state\<lparr> lastIncorrectSlotId := Some sid \<rparr>)"
proof -
  have corr: "correctPlacement state clue slot anchor sid =
     (if cl_type clue = ''PRIMARY'' then correctEventKey slot = Some (cl_eventKey clue)
      else if cl_type clue = ''SUPPORTING'' then
        primarySlotFilled state anchor \<and> list_ex (\<lambda>s. slotId s = sid) (supportingSlots anchor)
        \<and> cl_category clue = a_id anchor
      else False)"
    by (auto simp: correctPlacement_def list_ex_iff primarySlotFilled_slotFilled)
  have pc: "propertyAt cl_id (clues state) clueId = OwnEntry clue"
    and ps: "propertyAt slotId (slots state) sid = OwnEntry slot"
    using clue slot by (simp_all add: propertyAt_own)
  show ?thesis
    unfolding corr using sel anchor pc ps
    by (simp add: placeClueInSlot_def Let_def cluePoints_def)
qed

lemma placeClueInSlot_effect:
  "(selectedClueId state = None \<or> selectedClueId state = Some [] \<longrightarrow>
      placeClueInSlot upd state sid = state)
   \<and> (selectedClueId state = Some clueId \<and>
        (propertyAt cl_id (clues state) clueId = NoProperty
         \<or> propertyAt slotId (slots state) sid = NoProperty
         \<or> activeAnchor state = None) \<longrightarrow>
      placeClueInSlot upd state sid = state)
   \<and> (selectedClueId state = Some clueId \<and> clueId \<noteq> []
        \<and> entityAt cl_id (clues state) clueId = Some clue
        \<and> entityAt slotId (slots state) sid = Some slot
        \<and> activeAnchor state = Some anchor \<longrightarrow>
      (correctPlacement state clue slot anchor sid \<longrightarrow>
         placeClueInSlot upd state sid
           = state\<lparr> slots := slots (placeClueInSlot upd state sid),
                    score := score state + cluePoints clue,
                    selectedClueId := None, lastIncorrectSlotId := None \<rparr>
         \<and> entityAt slotId (slots (placeClueInSlot upd state sid)) sid
             = Some (slot\<lparr> placedClueId := Some clueId \<rparr>)
         \<and> (\<forall>k. k \<noteq> sid \<longrightarrow>
               entityAt slotId (slots (placeClueInSlot upd state sid)) k
                 = entityAt slotId (slots state) k)
         \<and> map slotId (slots (placeClueInSlot upd state sid)) = map slotId (slots state))
      \<and> (\<not> correctPlacement state clue slot anchor sid \<longrightarrow>
           placeClueInSlot upd state sid = state\<lparr> lastIncorrectSlotId := Some sid \<rparr>))"
proof (intro conjI impI)
  assume "selectedClueId state = None \<or> selectedClueId state = Some []"
  then show "placeClueInSlot upd state sid = state"
    by (rule placeClueInSlot_no_selection)
next
  assume "selectedClueId state = Some clueId \<and>
        (propertyAt cl_id (clues state) clueId = NoProperty
         \<or> propertyAt slotId (slots state) sid = NoProperty
         \<or> activeAnchor state = None)"
  then show "placeClueInSlot upd state sid = state"
    using placeClueInSlot_unresolved by blast
next
  assume h: "selectedClueId state = Some clueId \<and> clueId \<noteq> []
        \<and> entityAt cl_id (clues state) clueId = Some clue
        \<and> entityAt slotId (slots state) sid = Some slot
        \<and> activeAnchor state = Some anchor"
  have eq: "placeClueInSlot upd state sid =
     (if correctPlacement state clue slot anchor sid
      then state\<lparr> slots := updateOne slotId sid (\<lambda>x. x\<lparr> placedClueId := Some clueId \<rparr>) (slots state),
                  score := score state + cluePoints clue,
                  selectedClueId := None, lastIncorrectSlotId := None \<rparr>
      else state\<lparr> lastIncorrectSlotId := Some sid \<rparr>)"
    using h by (intro placeClueInSlot_resolved) simp_all
  {
    assume c: "correctPlacement state clue slot anchor sid"
    show "placeClueInSlot upd state sid
           = state\<lparr> slots := slots (placeClueInSlot upd state sid),
                    score := score state + cluePoints clue,
                    selectedClueId := None, lastIncorrectSlotId := None \<rparr>"
      using c by (simp add: eq)
    show "entityAt slotId (slots (placeClueInSlot upd state sid)) sid
             = Some (slot\<lparr> placedClueId := Some clueId \<rparr>)"
      using c h by (simp add: eq entityAt_updateOne)
    show "\<forall>k. k \<noteq> sid \<longrightarrow>
               entityAt slotId (slots (placeClueInSlot upd state sid)) k
                 = entityAt slotId (slots state) k"
      using c by (simp add: eq entityAt_updateOne)
    show "map slotId (slots (placeClueInSlot upd state sid)) = map slotId (slots state)"
      using c by (simp add: eq map_sel_updateOne)
  }
  {
    assume c: "\<not> correctPlacement state clue slot anchor sid"
    show "placeClueInSlot upd state sid = state\<lparr> lastIncorrectSlotId := Some sid \<rparr>"
      using c by (simp add: eq)
  }
qed

text \<open>
  A clue id or a slot id that is no entry and names an inherited property passes the
  guard. An inherited value in the place of the clue is neither PRIMARY nor SUPPORTING,
  and one in the place of the slot has no \<^verbatim>\<open>correctEventKey\<close>: the placement is taken for an
  incorrect one, unless a SUPPORTING clue meets its three conditions on such a slot id.
\<close>

lemma placeClueInSlot_inherited_clue:
  assumes "selectedClueId state = Some clueId" "clueId \<noteq> []"
    and "propertyAt cl_id (clues state) clueId = InheritedValue"
    and "propertyAt slotId (slots state) sid \<noteq> NoProperty"
    and "activeAnchor state = Some anchor"
  shows "placeClueInSlot upd state sid = state\<lparr> lastIncorrectSlotId := Some sid \<rparr>"
  using assms by (simp add: placeClueInSlot_def Let_def)

lemma placeClueInSlot_inherited_slot:
  assumes "selectedClueId state = Some clueId" "clueId \<noteq> []"
    and "entityAt cl_id (clues state) clueId = Some clue"
    and "propertyAt slotId (slots state) sid = InheritedValue"
    and "activeAnchor state = Some anchor"
  shows "placeClueInSlot upd state sid =
     (if cl_type clue = ''SUPPORTING''
         \<and> slotFilled (slots state) (slotId (primarySlot anchor))
         \<and> sid \<in> slotId ` set (supportingSlots anchor) \<and> cl_category clue = a_id anchor
      then state\<lparr> slots := upd sid clueId (slots state),
                  score := score state + cluePoints clue,
                  selectedClueId := None, lastIncorrectSlotId := None \<rparr>
      else state\<lparr> lastIncorrectSlotId := Some sid \<rparr>)"
proof -
  have pc: "propertyAt cl_id (clues state) clueId = OwnEntry clue"
    using assms(3) by (simp add: propertyAt_own)
  have ex: "list_ex (\<lambda>s. slotId s = sid) (supportingSlots anchor)
              \<longleftrightarrow> sid \<in> slotId ` set (supportingSlots anchor)"
    by (auto simp: list_ex_iff)
  show ?thesis
    using assms(1,2,4,5) pc
    by (simp add: placeClueInSlot_def Let_def cluePoints_def primarySlotFilled_slotFilled ex)
qed

text \<open>
  The example case file: calls that return at a guard, the PRIMARY clue on its slot and
  on another slot, and the SUPPORTING clue on the supporting slot before and after the
  primary slot is filled, and on the primary slot.
\<close>

lemma placeClueInSlot_examples:
  "placeClueInSlot upd (setSelectedClueId exampleCaseFile None) ''motive-primary''
     = setSelectedClueId exampleCaseFile None"
  "placeClueInSlot upd (setActiveTab exampleCaseFile ''means'') ''motive-primary''
     = setActiveTab exampleCaseFile ''means''"
  "placeClueInSlot upd exampleCaseFile ''no-such-slot'' = exampleCaseFile"
  "placeClueInSlot upd exampleCaseFile ''motive-primary'' = solvedCaseFile"
  "placeClueInSlot upd exampleCaseFile ''motive-support-1''
     = exampleCaseFile\<lparr> lastIncorrectSlotId := Some ''motive-support-1'' \<rparr>"
  "placeClueInSlot upd (setSelectedClueId exampleCaseFile (Some ''s1'')) ''motive-support-1''
     = (setSelectedClueId exampleCaseFile (Some ''s1''))
         \<lparr> lastIncorrectSlotId := Some ''motive-support-1'' \<rparr>"
  "placeClueInSlot upd (setSelectedClueId solvedCaseFile (Some ''s1'')) ''motive-support-1''
     = solvedCaseFile
         \<lparr> slots := [motivePrimarySlot\<lparr> placedClueId := Some ''p1'' \<rparr>,
                     motiveSupportSlot\<lparr> placedClueId := Some ''s1'' \<rparr>],
           score := 18 \<rparr>"
  "placeClueInSlot upd (setSelectedClueId solvedCaseFile (Some ''s1'')) ''motive-primary''
     = (setSelectedClueId solvedCaseFile (Some ''s1''))
         \<lparr> lastIncorrectSlotId := Some ''motive-primary'' \<rparr>"
  by (simp_all add: solvedCaseFile_eq exampleCaseFile_eq placeClueInSlot_def propertyAt_def
      inheritedNames_def primarySlotFilled_def activeAnchor_def setSelectedClueId_def
      setActiveTab_def Let_def caseFile_defs)

text \<open>
  Claim C3. The claim has \<^verbatim>\<open>placeClueInSlot\<close> change nothing when the slot or the selected
  clue does not resolve. The example case file has the slots \<^verbatim>\<open>motive-primary\<close> and
  \<^verbatim>\<open>motive-support-1\<close> and the clues \<^verbatim>\<open>p1\<close> and \<^verbatim>\<open>s1\<close>, with the PRIMARY clue \<^verbatim>\<open>p1\<close> selected.
  No slot has the id \<^verbatim>\<open>constructor\<close>, yet \<^verbatim>\<open>placeClueInSlot({slotId: 'constructor'})\<close> sets
  \<^verbatim>\<open>lastIncorrectSlotId\<close> to \<^verbatim>\<open>constructor\<close>; no clue has the id \<^verbatim>\<open>toString\<close>, yet with
  \<^verbatim>\<open>toString\<close> selected \<^verbatim>\<open>placeClueInSlot({slotId: 'motive-primary'})\<close> sets
  \<^verbatim>\<open>lastIncorrectSlotId\<close> to \<^verbatim>\<open>motive-primary\<close>. Neither call leaves the state as it was.
\<close>

theorem placeClueInSlot_inherited_name_marks_slot:
  "entityAt slotId (slots exampleCaseFile) ''constructor'' = None
   \<and> selectedClueId exampleCaseFile = Some ''p1''
   \<and> placeClueInSlot upd exampleCaseFile ''constructor''
       = exampleCaseFile\<lparr> lastIncorrectSlotId := Some ''constructor'' \<rparr>
   \<and> placeClueInSlot upd exampleCaseFile ''constructor'' \<noteq> exampleCaseFile
   \<and> entityAt cl_id (clues exampleCaseFile) ''toString'' = None
   \<and> placeClueInSlot upd (setSelectedClueId exampleCaseFile (Some ''toString'')) ''motive-primary''
       = (setSelectedClueId exampleCaseFile (Some ''toString''))
           \<lparr> lastIncorrectSlotId := Some ''motive-primary'' \<rparr>
   \<and> placeClueInSlot upd (setSelectedClueId exampleCaseFile (Some ''toString'')) ''motive-primary''
       \<noteq> setSelectedClueId exampleCaseFile (Some ''toString'')"
  by (simp add: exampleCaseFile_eq placeClueInSlot_def propertyAt_def
      inheritedNames_def activeAnchor_def setSelectedClueId_def Let_def caseFile_defs)

section \<open>Resetting the investigation\<close>

text \<open>
  Claim C4 says that \<^verbatim>\<open>resetInvestigation\<close> restores the initial case file: score 0, every
  slot empty, view mode \<^verbatim>\<open>workspace\<close>. The reducer calls a function the module does not
  define: on a case file with one clue placed and score 15 it throws, and the store keeps
  the score and the placed clue.
\<close>

theorem resetInvestigation_throws:
  "score solvedCaseFile = 15
   \<and> resetInvestigation solvedCaseFile = Inl (ReferenceError ''createInitialState'')
   \<and> score (dispatch_resetInvestigation solvedCaseFile) = 15
   \<and> entityAt slotId (slots (dispatch_resetInvestigation solvedCaseFile)) ''motive-primary''
       = Some (motivePrimarySlot\<lparr> placedClueId := Some ''p1'' \<rparr>)"
  by (simp add: resetInvestigation_def dispatch_resetInvestigation_def solvedCaseFile_eq
      caseFile_defs)

section \<open>Processing the image queue\<close>

lemma fold_requestStart_fields:
  "imageLoading (fold requestStart xs s) c
     = (if c \<in> r_cardId ` set xs then Some True else imageLoading s c)"
  "imageUrls (fold requestStart xs s) = imageUrls s"
  "imageErrors (fold requestStart xs s) = imageErrors s"
  "isProcessingQueue (fold requestStart xs s) = isProcessingQueue s"
  by (induction xs arbitrary: s) (simp_all add: requestStart_def setImageLoading_def)

lemma requestSettle_fields:
  "imageLoading (requestSettle g r s) = (imageLoading s)(r_cardId r \<mapsto> False)"
  "isProcessingQueue (requestSettle g r s) = isProcessingQueue s"
  "imageUrls (requestSettle g r s)
     = (case g r of Generated u \<Rightarrow> (imageUrls s)(r_cardId r \<mapsto> u) | _ \<Rightarrow> imageUrls s)"
  "imageErrors (requestSettle g r s)
     = (case g r of Generated u \<Rightarrow> imageErrors s | _ \<Rightarrow> (imageErrors s)(r_cardId r \<mapsto> True))"
  by (simp_all add: requestSettle_def setImageLoading_def setImageUrl_def setImageError_def
      split: Outcome.splits)

lemma fold_requestSettle_loading:
  "imageLoading (fold (requestSettle g) xs s) c
     = (if c \<in> r_cardId ` set xs then Some False else imageLoading s c)"
  by (induction xs arbitrary: s) (auto simp: requestSettle_fields)

lemma fold_requestSettle_processing:
  "isProcessingQueue (fold (requestSettle g) xs s) = isProcessingQueue s"
  by (induction xs arbitrary: s) (simp_all add: requestSettle_fields)

lemma fold_requestSettle_errors_keep:
  "imageErrors s c = Some True \<Longrightarrow> imageErrors (fold (requestSettle g) xs s) c = Some True"
  by (induction xs arbitrary: s) (simp_all add: requestSettle_fields split: Outcome.splits)

lemma fold_requestSettle_errors_set:
  "r \<in> set xs \<Longrightarrow> (\<And>u. g r \<noteq> Generated u)
   \<Longrightarrow> imageErrors (fold (requestSettle g) xs s) (r_cardId r) = Some True"
proof (induction xs arbitrary: s)
  case Nil
  then show ?case by simp
next
  case (Cons x xs)
  show ?case
  proof (cases "r \<in> set xs")
    case True
    then show ?thesis using Cons.IH Cons.prems(2) by simp
  next
    case False
    then have "x = r" using Cons.prems(1) by simp
    then have "imageErrors (requestSettle g x s) (r_cardId r) = Some True"
      using Cons.prems(2) by (cases "g r") (auto simp: requestSettle_fields)
    then show ?thesis by (simp add: fold_requestSettle_errors_keep)
  qed
qed

lemma fold_requestSettle_urls_keep:
  "imageUrls s c \<noteq> None \<Longrightarrow> imageUrls (fold (requestSettle g) xs s) c \<noteq> None"
  by (induction xs arbitrary: s) (simp_all add: requestSettle_fields split: Outcome.splits)

lemma fold_requestSettle_urls_set:
  "r \<in> set xs \<Longrightarrow> g r = Generated u
   \<Longrightarrow> imageUrls (fold (requestSettle g) xs s) (r_cardId r) \<noteq> None"
proof (induction xs arbitrary: s)
  case Nil
  then show ?case by simp
next
  case (Cons x xs)
  show ?case
  proof (cases "r \<in> set xs")
    case True
    then show ?thesis using Cons.IH Cons.prems(2) by simp
  next
    case False
    then have "x = r" using Cons.prems(1) by simp
    then have "imageUrls (requestSettle g x s) (r_cardId r) \<noteq> None"
      using Cons.prems(2) by (simp add: requestSettle_fields)
    then show ?thesis using fold_requestSettle_urls_keep by simp
  qed
qed

lemma fold_requestSettle_urls_frame:
  "c \<notin> r_cardId ` set xs \<Longrightarrow> imageUrls (fold (requestSettle g) xs s) c = imageUrls s c"
  by (induction xs arbitrary: s) (auto simp: requestSettle_fields split: Outcome.splits)

lemma fold_requestSettle_urls_exact:
  "imageUrls s c = Some u \<or> c \<in> r_cardId ` set xs
   \<Longrightarrow> (\<And>r. r \<in> set xs \<Longrightarrow> r_cardId r = c \<Longrightarrow> g r = Generated u)
   \<Longrightarrow> imageUrls (fold (requestSettle g) xs s) c = Some u"
proof (induction xs arbitrary: s)
  case Nil
  then show ?case by simp
next
  case (Cons x xs)
  have rest: "\<And>r. r \<in> set xs \<Longrightarrow> r_cardId r = c \<Longrightarrow> g r = Generated u"
    using Cons.prems(2) by simp
  show ?case
  proof (cases "r_cardId x = c")
    case True
    then have "g x = Generated u" using Cons.prems(2) by simp
    then have "imageUrls (requestSettle g x s) c = Some u"
      using True by (simp add: requestSettle_fields)
    then show ?thesis using Cons.IH [of "requestSettle g x s"] rest by simp
  next
    case False
    then have same: "imageUrls (requestSettle g x s) c = imageUrls s c"
      by (auto simp: requestSettle_fields split: Outcome.splits)
    have "imageUrls s c = Some u \<or> c \<in> r_cardId ` set xs"
      using Cons.prems(1) False by auto
    then show ?thesis using Cons.IH [of "requestSettle g x s"] rest same by simp
  qed
qed

lemma settled_processBatch_old:
  assumes "settled g s r" and "set (ord b) = set b"
  shows "settled g (processBatch g ord b s) r"
proof -
  have l: "imageLoading (processBatch g ord b s) (r_cardId r) = Some False"
    using assms by (simp add: processBatch_def fold_requestSettle_loading fold_requestStart_fields
        settled_def)
  have "case g r of
          Generated u \<Rightarrow> imageUrls (processBatch g ord b s) (r_cardId r) \<noteq> None
        | NoResult \<Rightarrow> imageErrors (processBatch g ord b s) (r_cardId r) = Some True
        | Thrown \<Rightarrow> imageErrors (processBatch g ord b s) (r_cardId r) = Some True"
    using assms(1)
    by (cases "g r")
       (simp_all add: settled_def processBatch_def fold_requestSettle_urls_keep
          fold_requestSettle_errors_keep fold_requestStart_fields)
  then show ?thesis using l by (simp add: settled_def)
qed

lemma settled_processBatch_new:
  assumes "r \<in> set b" and "set (ord b) = set b"
  shows "settled g (processBatch g ord b s) r"
proof -
  have m: "r \<in> set (ord b)" using assms by simp
  have l: "imageLoading (processBatch g ord b s) (r_cardId r) = Some False"
    using assms by (simp add: processBatch_def fold_requestSettle_loading)
  have "case g r of
          Generated u \<Rightarrow> imageUrls (processBatch g ord b s) (r_cardId r) \<noteq> None
        | NoResult \<Rightarrow> imageErrors (processBatch g ord b s) (r_cardId r) = Some True
        | Thrown \<Rightarrow> imageErrors (processBatch g ord b s) (r_cardId r) = Some True"
    using m
    by (cases "g r")
       (simp_all add: processBatch_def fold_requestSettle_urls_set fold_requestSettle_errors_set)
  then show ?thesis using l by (simp add: settled_def)
qed

lemma processBatch_processing:
  "isProcessingQueue (processBatch g ord b s) = isProcessingQueue s"
  by (simp add: processBatch_def fold_requestSettle_processing fold_requestStart_fields)

lemma processBatch_urls_frame:
  "set (ord b) = set b \<Longrightarrow> c \<notin> r_cardId ` set b
   \<Longrightarrow> imageUrls (processBatch g ord b s) c = imageUrls s c"
  by (simp add: processBatch_def fold_requestSettle_urls_frame fold_requestStart_fields)

lemma processBatch_urls_exact:
  assumes "set (ord b) = set b" and "r \<in> set b" and "g r = Generated u"
    and "inj_on r_cardId (set b)"
  shows "imageUrls (processBatch g ord b s) (r_cardId r) = Some u"
proof -
  have "\<And>r'. r' \<in> set (ord b) \<Longrightarrow> r_cardId r' = r_cardId r \<Longrightarrow> g r' = Generated u"
    using assms by (auto dest: inj_onD)
  moreover have "r_cardId r \<in> r_cardId ` set (ord b)" using assms by simp
  ultimately show ?thesis
    unfolding processBatch_def by (intro fold_requestSettle_urls_exact) auto
qed

lemma settled_dequeue: "settled g (dequeueImageRequests s n) r = settled g s r"
  by (cases "g r") (simp_all add: settled_def dequeueImageRequests_def)

text \<open>The loop ends with an empty queue and keeps every invariant of its body.\<close>

lemma processLoop_rule:
  "0 < lim \<Longrightarrow> P s
   \<Longrightarrow> (\<And>t. P t \<Longrightarrow> imageGenerationQueue t \<noteq> [] \<Longrightarrow>
          P (processBatch g ord (take lim (imageGenerationQueue t))
               (dequeueImageRequests t (length (take lim (imageGenerationQueue t))))))
   \<Longrightarrow> \<exists>s'. processLoop lim g ord s = Some s' \<and> imageGenerationQueue s' = [] \<and> P s'"
proof (induction lim g ord s rule: processLoop.induct)
  case (1 n g ord state)
  note lim = "1.prems"(1) and P = "1.prems"(2) and step = "1.prems"(3)
  show ?case
  proof (cases "imageGenerationQueue state = []")
    case True
    then show ?thesis using P by (subst processLoop.simps) simp
  next
    case False
    let ?b = "take n (imageGenerationQueue state)"
    let ?t = "processBatch g ord ?b (dequeueImageRequests state (length ?b))"
    have n0: "n \<noteq> 0" using lim by simp
    have Pt: "P ?t" using P False by (rule step)
    have "\<exists>s'. processLoop n g ord ?t = Some s' \<and> imageGenerationQueue s' = [] \<and> P s'"
      using False n0 refl lim Pt step by (rule "1.IH")
    moreover have "processLoop n g ord state = processLoop n g ord ?t"
      using False n0 by (subst processLoop.simps) (simp add: Let_def)
    ultimately show ?thesis by simp
  qed
qed

text \<open>An invocation while a processor is running, or on an empty queue, returns at once
  and leaves the state alone; with a limit of 0 and a request queued the loop never ends.\<close>

lemma processImageGenerationQueue_guard:
  "isProcessingQueue state \<or> imageGenerationQueue state = []
   \<Longrightarrow> processImageGenerationQueue lim g ord state = Some state"
  by (simp add: processImageGenerationQueue_def)

lemma processLoop_zero_limit:
  "imageGenerationQueue state \<noteq> [] \<Longrightarrow> processLoop 0 g ord state = None"
  by (subst processLoop.simps) simp

lemma distinct_cardIds_disjoint:
  assumes "distinct (map r_cardId (finished @ q))" and "r \<in> set finished"
  shows "r_cardId r \<notin> r_cardId ` set (take n q)"
proof
  assume "r_cardId r \<in> r_cardId ` set (take n q)"
  then have "r_cardId r \<in> r_cardId ` set q" using set_take_subset [of n q] by blast
  moreover have "r_cardId r \<in> r_cardId ` set finished" using assms(2) by simp
  ultimately show False using assms(1) by auto
qed

lemma distinct_cardIds_inj:
  assumes "distinct (map r_cardId (finished @ q))"
  shows "inj_on r_cardId (set (take n q))"
proof -
  have "distinct (map r_cardId q)" using assms by simp
  then have "distinct (map r_cardId (take n q))" by (simp add: take_map [symmetric] distinct_take)
  then show ?thesis by (simp add: distinct_map)
qed

text \<open>
  Claim C8. Take a concurrency limit of at least 1, any outcome of the collaborators for
  each request, any order in which the promises of a batch settle, and a state in which
  no processor is running. Then the processor run returns; at the end the queue is empty
  and \<^verbatim>\<open>isProcessingQueue\<close> is false; and every request that was in the queue is settled: its
  \<^verbatim>\<open>imageLoading\<close> flag is false, and a URL is published for its card when the service
  succeeded (the service's own URL when the queue holds each card once), or
  \<^verbatim>\<open>imageErrors\<close> is true for its card when the service returned nothing or something
  threw. No outcome of one request keeps another of the queue from being settled.
\<close>

theorem processImageGenerationQueue_settles:
  assumes lim: "0 < lim"
    and ord: "\<And>b. set (settleOrder b) = set b"
    and idle: "\<not> isProcessingQueue state"
  shows "\<exists>s'. processImageGenerationQueue lim g settleOrder state = Some s'
    \<and> imageGenerationQueue s' = [] \<and> \<not> isProcessingQueue s'
    \<and> (\<forall>r \<in> set (imageGenerationQueue state). settled g s' r)
    \<and> (distinct (map r_cardId (imageGenerationQueue state)) \<longrightarrow>
         (\<forall>r \<in> set (imageGenerationQueue state). \<forall>u. g r = Generated u \<longrightarrow>
            imageUrls s' (r_cardId r) = Some u))"
proof (cases "imageGenerationQueue state = []")
  case True
  then show ?thesis using idle by (simp add: processImageGenerationQueue_def)
next
  case False
  let ?q0 = "imageGenerationQueue state"
  define P where "P t \<longleftrightarrow>
      isProcessingQueue t
      \<and> (\<exists>finished. ?q0 = finished @ imageGenerationQueue t
            \<and> (\<forall>r \<in> set finished. settled g t r)
            \<and> (distinct (map r_cardId ?q0) \<longrightarrow>
                 (\<forall>r \<in> set finished. \<forall>u. g r = Generated u \<longrightarrow> imageUrls t (r_cardId r) = Some u)))"
    for t :: "'a StoryState_scheme"
  have init: "P (setIsProcessingQueue state True)"
    unfolding P_def by (simp add: setIsProcessingQueue_def)
  have step: "P (processBatch g settleOrder (take lim (imageGenerationQueue t))
                  (dequeueImageRequests t (length (take lim (imageGenerationQueue t)))))"
    if Pt: "P t" and ne: "imageGenerationQueue t \<noteq> []" for t
  proof -
    let ?b = "take lim (imageGenerationQueue t)"
    let ?d = "dequeueImageRequests t (length ?b)"
    let ?t' = "processBatch g settleOrder ?b ?d"
    obtain finished where q0: "?q0 = finished @ imageGenerationQueue t"
      and old: "\<forall>r \<in> set finished. settled g t r"
      and exact: "distinct (map r_cardId ?q0) \<longrightarrow>
                 (\<forall>r \<in> set finished. \<forall>u. g r = Generated u \<longrightarrow> imageUrls t (r_cardId r) = Some u)"
      using Pt unfolding P_def by blast
    have proc: "isProcessingQueue ?t'"
      using Pt unfolding P_def by (simp add: processBatch_processing dequeueImageRequests_def)
    have queue: "imageGenerationQueue ?t' = drop lim (imageGenerationQueue t)"
      by (simp add: processBatch_queue dequeueImageRequests_def min_def)
    have split: "?q0 = (finished @ ?b) @ imageGenerationQueue ?t'"
      unfolding queue using q0 by simp
    have urls_d: "imageUrls ?d = imageUrls t" by (simp add: dequeueImageRequests_def)
    have all: "\<forall>r \<in> set (finished @ ?b). settled g ?t' r"
    proof
      fix r assume "r \<in> set (finished @ ?b)"
      then consider "r \<in> set finished" | "r \<in> set ?b" by auto
      then show "settled g ?t' r"
      proof cases
        case 1
        then have "settled g ?d r" using old by (simp add: settled_dequeue)
        then show ?thesis using ord by (rule settled_processBatch_old)
      next
        case 2
        then show ?thesis using ord by (rule settled_processBatch_new)
      qed
    qed
    have ex: "\<forall>r \<in> set (finished @ ?b). \<forall>u. g r = Generated u \<longrightarrow> imageUrls ?t' (r_cardId r) = Some u"
      if dist: "distinct (map r_cardId ?q0)"
    proof (intro ballI allI impI)
      fix r u assume r: "r \<in> set (finished @ ?b)" and gu: "g r = Generated u"
      have dist': "distinct (map r_cardId (finished @ imageGenerationQueue t))" using dist q0 by simp
      consider "r \<in> set finished" | "r \<in> set ?b" using r by auto
      then show "imageUrls ?t' (r_cardId r) = Some u"
      proof cases
        case 1
        have "r_cardId r \<notin> r_cardId ` set ?b" using dist' 1 by (rule distinct_cardIds_disjoint)
        then have "imageUrls ?t' (r_cardId r) = imageUrls ?d (r_cardId r)"
          using ord by (simp add: processBatch_urls_frame)
        then show ?thesis using exact dist 1 gu urls_d by simp
      next
        case 2
        have "inj_on r_cardId (set ?b)" using dist' by (rule distinct_cardIds_inj)
        then show ?thesis using ord 2 gu by (simp add: processBatch_urls_exact)
      qed
    qed
    show ?thesis unfolding P_def using proc split all ex by blast
  qed
  obtain s1 where run: "processLoop lim g settleOrder (setIsProcessingQueue state True) = Some s1"
    and empty: "imageGenerationQueue s1 = []" and P1: "P s1"
    using processLoop_rule [of lim P "setIsProcessingQueue state True" g settleOrder, OF lim init step]
    by blast
  let ?s' = "setIsProcessingQueue s1 False"
  have res: "processImageGenerationQueue lim g settleOrder state = Some ?s'"
    using False idle run by (simp add: processImageGenerationQueue_def)
  have fields: "imageGenerationQueue ?s' = []" "\<not> isProcessingQueue ?s'"
    "imageUrls ?s' = imageUrls s1"
    using empty by (simp_all add: setIsProcessingQueue_def)
  have set_flag: "settled g ?s' r = settled g s1 r" for r
    by (cases "g r") (simp_all add: settled_def setIsProcessingQueue_def)
  obtain finished where q0: "?q0 = finished @ imageGenerationQueue s1"
      and old: "\<forall>r \<in> set finished. settled g s1 r"
      and exact: "distinct (map r_cardId ?q0) \<longrightarrow>
                 (\<forall>r \<in> set finished. \<forall>u. g r = Generated u \<longrightarrow> imageUrls s1 (r_cardId r) = Some u)"
    using P1 unfolding P_def by blast
  have d: "finished = ?q0" using q0 empty by simp
  show ?thesis
    using res fields old exact set_flag unfolding d by simp
qed

theorem processImageGenerationQueue_settles_witness:
  "(0::nat) < 2 \<and> (\<forall>b :: ImageGenerationRequest list. set (rev b) = set b)
   \<and> \<not> isProcessingQueue queuedState
   \<and> (\<exists>s'. processImageGenerationQueue 2 exampleService rev queuedState = Some s'
         \<and> imageGenerationQueue s' = [] \<and> \<not> isProcessingQueue s'
         \<and> imageUrls s' ''a'' = Some ''blob:a'' \<and> imageLoading s' ''a'' = Some False
         \<and> imageErrors s' ''b'' = Some True \<and> imageLoading s' ''b'' = Some False
         \<and> imageErrors s' ''c'' = Some True \<and> imageLoading s' ''c'' = Some False)"
proof -
  have idle: "\<not> isProcessingQueue queuedState"
    and q: "imageGenerationQueue queuedState = exampleRequests"
    by (simp_all add: queuedState_def example_defs)
  have dist: "distinct (map r_cardId exampleRequests)" by (simp add: exampleRequests_def)
  obtain s' where res: "processImageGenerationQueue 2 exampleService rev queuedState = Some s'"
    and e: "imageGenerationQueue s' = []" and p: "\<not> isProcessingQueue s'"
    and st: "\<forall>r \<in> set exampleRequests. settled exampleService s' r"
    and ex: "\<forall>r \<in> set exampleRequests. \<forall>u. exampleService r = Generated u \<longrightarrow>
            imageUrls s' (r_cardId r) = Some u"
    using processImageGenerationQueue_settles [of 2 rev queuedState exampleService] idle dist
    unfolding q by auto
  have "imageUrls s' ''a'' = Some ''blob:a''"
    using ex by (simp add: exampleRequests_def exampleService_def)
  moreover have "imageLoading s' ''a'' = Some False \<and> imageErrors s' ''b'' = Some True
    \<and> imageLoading s' ''b'' = Some False \<and> imageErrors s' ''c'' = Some True
    \<and> imageLoading s' ''c'' = Some False"
    using st by (simp add: exampleRequests_def exampleService_def settled_def)
  ultimately show ?thesis using res e p idle by auto
qed

section \<open>Testimonies synthesized from statements\<close>

lemma transformCharacter_testimonies:
  assumes "transformCharacter now c allRawObjects testimonies0 = (character, allRawObjects1, testimonies1)"
  shows "testimonies1 = testimonies0 @ statementTestimonies c"
    and "c_testimonyIds character = map t_id (statementTestimonies c)"
    and "c_id character = rc_id c"
  using assms
  by (auto simp: transformCharacter_def statementTestimonies_def Let_def
      split: option.splits if_splits)

text \<open>
  Claim C9. The character transform appends to the testimony list, in the order of the
  raw characters, exactly the testimonies the specification asks for: one per character
  with a non-empty statement, none for a character whose statement is empty or absent.
  Each transformed character keeps its id, and its \<^verbatim>\<open>testimonyIds\<close> are exactly the ids of
  its own synthesized testimonies: the one id, or none.
\<close>

theorem transformCharacterData_testimonies:
  "transformCharacterData clock cs allRawObjects testimonies0 = (chars, allRawObjects', testimonies')
   \<Longrightarrow> testimonies' = testimonies0 @ concat (map statementTestimonies cs)
       \<and> map c_testimonyIds chars = map (\<lambda>c. map t_id (statementTestimonies c)) cs
       \<and> map c_id chars = map rc_id cs"
proof (induction cs arbitrary: allRawObjects testimonies0 chars allRawObjects' testimonies')
  case Nil
  then show ?case by simp
next
  case (Cons c cs)
  obtain character objs1 tests1 where one:
    "transformCharacter (clock c) c allRawObjects testimonies0 = (character, objs1, tests1)"
    by (cases "transformCharacter (clock c) c allRawObjects testimonies0") auto
  obtain rest objs2 tests2 where more:
    "transformCharacterData clock cs objs1 tests1 = (rest, objs2, tests2)"
    by (cases "transformCharacterData clock cs objs1 tests1") auto
  have res: "chars = character # rest" "testimonies' = tests2"
    using Cons.prems one more by simp_all
  have ih: "tests2 = tests1 @ concat (map statementTestimonies cs)
       \<and> map c_testimonyIds rest = map (\<lambda>c. map t_id (statementTestimonies c)) cs
       \<and> map c_id rest = map rc_id cs"
    using more by (rule Cons.IH)
  show ?case
    using ih transformCharacter_testimonies [OF one] by (simp add: res)
qed

theorem transformCharacterData_testimonies_witness:
  "snd (snd (transformCharacterData (\<lambda>c. ''2025-01-01T00:00:00.000Z'') [rawWitness, rawSilent] [] []))
     = [\<lparr> t_id = ''testimony-c1'', t_title = ''Statement from Ada'',
          t_content = ''I saw nothing'', t_sourceCharacterId = ''c1'' \<rparr>]
   \<and> map c_testimonyIds
        (fst (transformCharacterData (\<lambda>c. ''2025-01-01T00:00:00.000Z'') [rawWitness, rawSilent] [] []))
     = [[''testimony-c1''], []]"
proof -
  let ?R = "transformCharacterData (\<lambda>c. ''2025-01-01T00:00:00.000Z'') [rawWitness, rawSilent] [] []"
  have p: "?R = (fst ?R, fst (snd ?R), snd (snd ?R))" by simp
  have s: "statementTestimonies rawWitness
      = [\<lparr> t_id = ''testimony-c1'', t_title = ''Statement from Ada'',
          t_content = ''I saw nothing'', t_sourceCharacterId = ''c1'' \<rparr>]"
    "statementTestimonies rawSilent = []"
    by (simp_all add: statementTestimonies_def rawWitness_def rawSilent_def)
  show ?thesis
    using transformCharacterData_testimonies [OF p] by (simp add: s)
qed

end
